theory Spec2Isabelle
  imports Main
begin

section \<open>Strings\<close>

text \<open>
  A Python \<open>str\<close> is modelled as a \<open>string\<close> with one \<open>char\<close> per code point, so the
  model covers the strings whose code points are below 256. On these code points Python's
  \<open>str.isspace\<close> holds for 9-13, 28-32, 133 and 160, the pattern \<open>\d\<close> of \<open>re\<close> matches
  the ASCII digits only, and \<open>str.lower\<close> adds 32 to A-Z and to 192-222 except 215.
\<close>

definition is_space :: "char \<Rightarrow> bool" where
  "is_space c = (let n = (of_char c :: nat) in
     (9 \<le> n \<and> n \<le> 13) \<or> (28 \<le> n \<and> n \<le> 32) \<or> n = 133 \<or> n = 160)"


definition is_upper :: "char \<Rightarrow> bool" where
  "is_upper c = (let n = (of_char c :: nat) in
     (65 \<le> n \<and> n \<le> 90) \<or> (192 \<le> n \<and> n \<le> 222 \<and> n \<noteq> 215))"

text \<open>Adding 32 to an upper-case code point sets bit 5, which is clear in both ranges.\<close>

fun to_lower :: "char \<Rightarrow> char" where
  "to_lower (Char b0 b1 b2 b3 b4 b5 b6 b7) =
     (if is_upper (Char b0 b1 b2 b3 b4 b5 b6 b7)
      then Char b0 b1 b2 b3 b4 True b6 b7
      else Char b0 b1 b2 b3 b4 b5 b6 b7)"

text \<open>\<open>s.strip()\<close>, \<open>s.lower()\<close> and \<open>s.startswith(p)\<close>.\<close>

definition strip :: "string \<Rightarrow> string" where
  "strip s = rev (dropWhile is_space (rev (dropWhile is_space s)))"

definition lower :: "string \<Rightarrow> string" where
  "lower s = map to_lower s"

definition startswith :: "string \<Rightarrow> string \<Rightarrow> bool" where
  "startswith s p = (take (length p) s = p)"


section \<open>Code mappings of the register workflow\<close>

text \<open>
  \<open>_map_gender\<close> and \<open>_map_mode\<close> of \<open>mdac_automation.py\<close>. The argument is
  \<open>Optional[str]\<close>; \<open>not g\<close> holds for \<open>None\<close> and for the empty string.
\<close>

definition map_gender :: "string option \<Rightarrow> string" where
  "map_gender g =
     (case g of
        None \<Rightarrow> ''''
      | Some s \<Rightarrow>
          if s = '''' then ''''
          else let t = lower (strip s) in
            if startswith t ''m'' then ''1''
            else if startswith t ''f'' then ''2''
            else '''')"

definition map_mode :: "string option \<Rightarrow> string" where
  "map_mode m =
     (case m of
        None \<Rightarrow> ''''
      | Some s \<Rightarrow>
          if s = '''' then ''''
          else let t = lower (strip s) in
            if startswith t ''air'' then ''1''
            else if startswith t ''land'' then ''2''
            else if startswith t ''sea'' then ''3''
            else '''')"

text \<open>
  The mapping as the specification words it: the words male and female (air, land, sea)
  are mapped, every other input gives the empty string. Case and surrounding blanks are
  not held against the input.
\<close>

definition spec_sex_code :: "string option \<Rightarrow> string" where
  "spec_sex_code g =
     (case g of
        None \<Rightarrow> ''''
      | Some s \<Rightarrow>
          if lower (strip s) = ''male'' then ''1''
          else if lower (strip s) = ''female'' then ''2''
          else '''')"

definition spec_mode_code :: "string option \<Rightarrow> string" where
  "spec_mode_code m =
     (case m of
        None \<Rightarrow> ''''
      | Some s \<Rightarrow>
          if lower (strip s) = ''air'' then ''1''
          else if lower (strip s) = ''land'' then ''2''
          else if lower (strip s) = ''sea'' then ''3''
          else '''')"


section \<open>The manual gate\<close>

text \<open>
  \<open>ManualGate\<close> holds a dictionary from tokens to \<open>asyncio.Event\<close> objects. An event is
  a heap object: it has an identity (a handle) and a flag that \<open>set()\<close> raises. The record
  keeps the dictionary \<open>_events\<close>, the flag of every handle, and the next handle that
  \<open>asyncio.Event()\<close> allocates.
\<close>

type_synonym token = string
type_synonym handle = nat

record gate =
  events :: "token \<rightharpoonup> handle"
  flag :: "handle \<Rightarrow> bool"
  next_handle :: handle

definition empty_gate :: gate where
  "empty_gate = \<lparr>events = Map.empty, flag = (\<lambda>_. False), next_handle = 0\<rparr>"

definition create :: "gate \<Rightarrow> token \<Rightarrow> handle \<times> gate" where
  "create g t =
     (let ev = next_handle g
      in (ev, g\<lparr>events := (events g)(t \<mapsto> ev),
                flag := (flag g)(ev := False),
                next_handle := Suc ev\<rparr>))"

text \<open>An event object is always truthy, so \<open>not ev\<close> holds exactly for \<open>None\<close>.\<close>

definition resume :: "gate \<Rightarrow> token \<Rightarrow> bool \<times> gate" where
  "resume g t =
     (case events g t of
        None \<Rightarrow> (False, g)
      | Some ev \<Rightarrow>
          (True, g\<lparr>flag := (flag g)(ev := True),
                   events := (events g)(t := None)\<rparr>))"

text \<open>Calls on the gate, and what a sequence of them leaves.\<close>

datatype gate_op = Create token | Resume token

fun apply_op :: "gate_op \<Rightarrow> gate \<Rightarrow> gate" where
  "apply_op (Create t) g = snd (create g t)"
| "apply_op (Resume t) g = snd (resume g t)"

fun run_ops :: "gate_op list \<Rightarrow> gate \<Rightarrow> gate" where
  "run_ops [] g = g"
| "run_ops (a # as) g = run_ops as (apply_op a g)"


text \<open>
  \<open>asyncio.wait_for(ev.wait(), timeout)\<close>: the workflow is suspended on the event while
  other tasks run. The list holds the calls those tasks make on the gate before the
  ceiling elapses, in order. The wait returns as soon as the flag of the event is up;
  when the list is used up and the flag is still down, the ceiling has elapsed. The gate
  returned is the one the workflow finds when it continues.
\<close>

datatype wait_result = Signalled | TimedOut

fun gate_wait :: "handle \<Rightarrow> gate_op list \<Rightarrow> gate \<Rightarrow> wait_result \<times> gate" where
  "gate_wait ev [] g = (if flag g ev then Signalled else TimedOut, g)"
| "gate_wait ev (a # as) g =
     (if flag g ev then (Signalled, g) else gate_wait ev as (apply_op a g))"

text \<open>
  Invariants of the gate used in the proofs. In a gate built from the empty one, every
  mapped handle is allocated, its flag is down, and no two tokens share a handle. A handle
  is quiet for an owner when it is allocated, its flag is down, and no token other than
  the owner (no token at all, when there is no owner) is mapped to it.
\<close>

definition gate_ok :: "gate \<Rightarrow> bool" where
  "gate_ok g \<longleftrightarrow>
     (\<forall>t ev. events g t = Some ev \<longrightarrow> ev < next_handle g \<and> \<not> flag g ev)
     \<and> (\<forall>t u ev. events g t = Some ev \<and> events g u = Some ev \<longrightarrow> t = u)"

definition quiet :: "handle \<Rightarrow> token option \<Rightarrow> gate \<Rightarrow> bool" where
  "quiet ev owner g \<longleftrightarrow>
     ev < next_handle g \<and> \<not> flag g ev
     \<and> (\<forall>u. events g u = Some ev \<longrightarrow> owner = Some u)
     \<and> (\<forall>u e. events g u = Some e \<longrightarrow> e < next_handle g)"


section \<open>Calls on the browser and their outcomes\<close>

text \<open>
  The browser, the page and the file system are outside the program. Every call the
  program makes on them is an \<open>op\<close>; the environment answers a call, in its current
  state, with an exception or a value and moves to a new state. The programs below are
  stated for every environment. The locators \<open>page.get_by_role(role, name=pattern)\<close> are
  built without touching the page, so only their \<open>count()\<close> is a call; the pattern is
  kept as its source text.
\<close>

datatype role = Button | Link

datatype path = PathOf string | Child path string

datatype exn = Error string | AsyncioTimeout

datatype val = VNone | VBool bool | VInt int | VStr string | VObj string

datatype op =
    PlaywrightStart
  | Launch bool
  | Mkdir path
  | NewContext "path option"
  | TracingStart
  | NewPage
  | PageOn string
  | TracingStop path
  | ContextClose
  | PageVideo
  | VideoPath
  | Goto string
  | Screenshot path
  | RoleCount role string
  | Fill string string
  | SelectOption string string
  | KeyboardPress string
  | Click string nat
  | InnerText string
  | WaitForTimeout nat
  | WaitForSelector string nat
  | EvaluateLog string
  | EvaluateSetDate string string string string string
  | EvalValue string
  | WaitForDownload nat
  | SuggestedFilename
  | SaveAs path
  | ExpectPopup nat
  | PopupValue
  | PopupUrl
  | PopupWaitPdfResponse nat
  | ResponseBody
  | LoopTimeMillis
  | WriteBytes path
  | PopupClose

text \<open>
  What the program prints: \<open>log\<close>, \<open>log_ok\<close>, \<open>log_warn\<close>, \<open>log_err\<close> and \<open>log_exc\<close>
  become the levels; the message is the fixed part of the printed text, and the exception
  that \<open>log_err\<close> and \<open>log_exc\<close> format is kept beside it. The trace lists the calls
  and the printed lines in the order they happen.
\<close>

datatype level = Plain | Okay | Warn | Err | Exc

datatype event = Call op | Log level string "exn option"

type_synonym 'w env = "op \<Rightarrow> 'w \<Rightarrow> (exn + val) \<times> 'w"

type_synonym 'w state = "'w \<times> event list"

type_synonym ('w, 'a) prog = "'w state \<Rightarrow> (exn + 'a) \<times> 'w state"

definition ret :: "'a \<Rightarrow> ('w, 'a) prog" where
  "ret x = (\<lambda>s. (Inr x, s))"

definition raise :: "exn \<Rightarrow> ('w, 'a) prog" where
  "raise e = (\<lambda>s. (Inl e, s))"

definition bind :: "('w, 'a) prog \<Rightarrow> ('a \<Rightarrow> ('w, 'b) prog) \<Rightarrow> ('w, 'b) prog" where
  "bind m f = (\<lambda>s. case m s of (Inl e, s') \<Rightarrow> (Inl e, s') | (Inr x, s') \<Rightarrow> f x s')"

definition seq :: "('w, 'a) prog \<Rightarrow> ('w, 'b) prog \<Rightarrow> ('w, 'b) prog" where
  "seq m n = bind m (\<lambda>_. n)"

text \<open>\<open>try: m except Exception as e: h e\<close>.\<close>

definition catch :: "('w, 'a) prog \<Rightarrow> (exn \<Rightarrow> ('w, 'a) prog) \<Rightarrow> ('w, 'a) prog" where
  "catch m h = (\<lambda>s. case m s of (Inl e, s') \<Rightarrow> h e s' | (Inr x, s') \<Rightarrow> (Inr x, s'))"

definition call :: "'w env \<Rightarrow> op \<Rightarrow> ('w, val) prog" where
  "call E a = (\<lambda>(w, tr). case E a w of (r, w') \<Rightarrow> (r, (w', tr @ [Call a])))"

definition emit :: "level \<Rightarrow> string \<Rightarrow> exn option \<Rightarrow> ('w, unit) prog" where
  "emit l msg e = (\<lambda>(w, tr). (Inr (), (w, tr @ [Log l msg e])))"

text \<open>
  A program emits only events of a kind when every run of it extends the trace by such
  events; used to show that a part of a workflow makes no call of some kind.
\<close>

definition emits_only :: "(event \<Rightarrow> bool) \<Rightarrow> ('w, 'a) prog \<Rightarrow> bool" where
  "emits_only P m \<longleftrightarrow> (\<forall>s. \<exists>l. snd (snd (m s)) = snd s @ l \<and> (\<forall>x \<in> set l. P x))"

text \<open>
  Python's truth value of an object, and \<open>Path(v)\<close>: a string or a path answered by
  the environment is given by its text, and \<open>Path\<close> raises on anything else.
\<close>

fun truthy :: "val \<Rightarrow> bool" where
  "truthy VNone = False"
| "truthy (VBool b) = b"
| "truthy (VInt i) = (i \<noteq> 0)"
| "truthy (VStr s) = (s \<noteq> '''')"
| "truthy (VObj s) = True"

fun to_path :: "val \<Rightarrow> exn + path" where
  "to_path (VStr s) = Inr (PathOf s)"
| "to_path v = Inl (Error ''TypeError'')"

text \<open>The module constants read from the process environment at import.\<close>

record config =
  RECORD_TRACE :: bool
  HEADLESS_DEFAULT :: bool
  LOG_NETWORK :: bool


section \<open>Artifacts and their finalizer\<close>

record artifacts =
  video_path :: "path option"
  trace_path :: "path option"
  screenshots_dir :: "path option"

text \<open>
  \<open>_finalize_artifacts\<close>, one definition for each of its three guarded blocks. The
  assignments to the artifacts are followed by a \<open>log_ok\<close> only, so a block that raises
  has not assigned.
\<close>

definition stop_trace_step ::
  "'w env \<Rightarrow> config \<Rightarrow> path option \<Rightarrow> artifacts \<Rightarrow> ('w, artifacts) prog" where
  "stop_trace_step E cfg record_dir a =
     (case record_dir of
        None \<Rightarrow> ret a
      | Some d \<Rightarrow>
          if RECORD_TRACE cfg then
            catch
              (seq (call E (TracingStop (Child d ''trace.zip'')))
                (seq (emit Okay ''Trace saved'' None)
                  (ret (a\<lparr>trace_path := Some (Child d ''trace.zip'')\<rparr>))))
              (\<lambda>e. seq (emit Err ''Trace stop failed'' (Some e)) (ret a))
          else ret a)"

definition close_step :: "'w env \<Rightarrow> artifacts \<Rightarrow> ('w, artifacts) prog" where
  "close_step E a =
     catch
       (seq (call E ContextClose) (seq (emit Okay ''Context closed'' None) (ret a)))
       (\<lambda>e. seq (emit Err ''Context close failed'' (Some e)) (ret a))"

definition video_step :: "'w env \<Rightarrow> artifacts \<Rightarrow> ('w, artifacts) prog" where
  "video_step E a =
     catch
       (bind (call E PageVideo) (\<lambda>v.
          if truthy v then
            bind (call E VideoPath) (\<lambda>vp.
              case to_path vp of
                Inl e \<Rightarrow> raise e
              | Inr p \<Rightarrow>
                  seq (emit Okay ''Video saved'' None) (ret (a\<lparr>video_path := Some p\<rparr>)))
          else ret a))
       (\<lambda>e. seq (emit Err ''Video path fetch failed'' (Some e)) (ret a))"

definition finalize_artifacts ::
  "'w env \<Rightarrow> config \<Rightarrow> path option \<Rightarrow> artifacts \<Rightarrow> ('w, artifacts) prog" where
  "finalize_artifacts E cfg record_dir a =
     bind (stop_trace_step E cfg record_dir a) (\<lambda>a1.
       bind (close_step E a1) (\<lambda>a2. video_step E a2))"

text \<open>
  Two environments for concrete runs. In the first, closing the context raises while the
  page has a recording whose path can be read; in the second every call succeeds and the
  page has no recording.
\<close>

definition env_close_fails :: "unit env" where
  "env_close_fails a w =
     (if a = ContextClose then (Inl (Error ''Target closed''), w)
      else if a = PageVideo then (Inr (VObj ''Video''), w)
      else if a = VideoPath then (Inr (VStr ''videos/P1/page.webm''), w)
      else (Inr VNone, w))"

definition env_plain :: "unit env" where
  "env_plain a w = (Inr VNone, w)"

definition no_artifacts :: artifacts where
  "no_artifacts = \<lparr>video_path = None, trace_path = None, screenshots_dir = None\<rparr>"


section \<open>Pages, navigation and fuzzy control matching\<close>

text \<open>
  The page object carries the attribute \<open>_mdac_screens\<close> that \<open>open_context\<close> attaches;
  a path object is always truthy, so \<open>not target_dir\<close> holds exactly for \<open>None\<close>.
\<close>

record page =
  mdac_screens :: "path option"

definition BASE :: string where
  "BASE = ''https://imigresen-online.imi.gov.my/mdac/main''"

definition screenshot :: "'w env \<Rightarrow> page \<Rightarrow> string \<Rightarrow> ('w, unit) prog" where
  "screenshot E pg name =
     (case mdac_screens pg of
        None \<Rightarrow> ret ()
      | Some target_dir \<Rightarrow>
          catch
            (seq (call E (Mkdir target_dir))
              (seq (call E (Screenshot (Child target_dir (name @ ''.png''))))
                (emit Okay ''Screenshot'' None)))
            (\<lambda>e. emit Err ''screenshot failed'' (Some e)))"

definition navigate_safe :: "'w env \<Rightarrow> string \<Rightarrow> ('w, unit) prog" where
  "navigate_safe E url =
     catch
       (seq (emit Plain ''Navigate'' None)
         (seq (call E (Goto url)) (emit Okay ''Navigated'' None)))
       (\<lambda>e. seq (emit Err ''Navigate failed, retrying BASE'' (Some e))
          (catch
            (seq (call E (Goto BASE)) (emit Okay ''Fallback navigate'' None))
            (\<lambda>e2. emit Exc ''Fallback navigate failed'' (Some e2))))"

text \<open>
  \<open>locator.first().click()\<close>, as the source writes it for a button and for a link. In
  the Python interface of Playwright, \<open>first\<close> of a locator is a property that holds a
  locator. The source calls it, and calling a locator object raises \<open>TypeError\<close>, so
  \<open>click\<close> is never reached and nothing is asked of the page.
\<close>

definition first_click :: "('w, val) prog" where
  "first_click = raise (Error ''TypeError'')"

text \<open>
  \<open>click_if_exists\<close>. Inside each \<open>try\<close> block the value \<open>True\<close> stands for the
  \<open>return True\<close> that leaves the function, \<open>False\<close> for falling out of the block.
\<close>

definition click_if_exists :: "'w env \<Rightarrow> string \<Rightarrow> ('w, bool) prog" where
  "click_if_exists E pat =
     seq (emit Plain ''Try click-if-exists'' None)
       (bind
         (catch
           (bind (call E (RoleCount Button pat)) (\<lambda>c.
              if truthy c then
                seq (emit Okay ''Button match found'' None)
                  (seq first_click
                    (seq (emit Okay ''Button clicked'' None) (ret True)))
              else ret False))
           (\<lambda>e. seq (emit Err ''Button click failed'' (Some e)) (ret False)))
         (\<lambda>returned.
            if returned then ret True
            else
              bind
                (catch
                  (bind (call E (RoleCount Link pat)) (\<lambda>c.
                     if truthy c then
                       seq (emit Okay ''Link match found'' None)
                         (seq first_click
                           (seq (emit Okay ''Link clicked'' None) (ret True)))
                     else ret False))
                  (\<lambda>e. seq (emit Err ''Link click failed'' (Some e)) (ret False)))
                (\<lambda>returned2.
                   if returned2 then ret True
                   else seq (emit Warn ''No button/link matched'' None) (ret False))))"


section \<open>The download workflow\<close>

record pin_row =
  passport :: string
  nationality :: string
  pin :: string

text \<open>\<open>str(v)\<close> as an f-string formats it; an object carries its own text.\<close>

fun show_nat :: "nat \<Rightarrow> string" where
  "show_nat n =
     (if n < 10 then [''0123456789'' ! n]
      else show_nat (n div 10) @ [''0123456789'' ! (n mod 10)])"

fun py_str :: "val \<Rightarrow> string" where
  "py_str VNone = ''None''"
| "py_str (VBool b) = (if b then ''True'' else ''False'')"
| "py_str (VInt i) = (if i < 0 then CHR ''-'' # show_nat (nat (- i)) else show_nat (nat i))"
| "py_str (VStr s) = s"
| "py_str (VObj s) = s"

text \<open>\<open>download_one\<close> up to the comment \<open># Direct download\<close>.\<close>

definition download_prelude :: "'w env \<Rightarrow> page \<Rightarrow> pin_row \<Rightarrow> ('w, unit) prog" where
  "download_prelude E pg row =
     seq (emit Plain ''=== download_one: START ==='' None)
     (seq (navigate_safe E (BASE @ ''?checkMain''))
     (seq (screenshot E pg ''10_check_main'')
     (seq (click_if_exists E ''(check registration|check|retrieve)'')
     (seq (catch
            (seq (call E (Fill ''input[name*='pass']'' (passport row)))
              (emit Okay ''Filled passport on check page'' None))
            (\<lambda>e. emit Err ''Fill passport on check page failed'' (Some e)))
     (seq (catch
            (seq (call E (SelectOption ''select[name*='nation'], select[name*='nationality']''
                    (nationality row)))
              (emit Okay ''Selected nationality on check page'' None))
            (\<lambda>e. emit Err ''Select nationality on check page failed'' (Some e)))
     (seq (catch
            (seq (call E (Fill ''input[name*='pin']'' (pin row)))
              (emit Okay ''Filled pin on check page'' None))
            (\<lambda>e. emit Err ''Fill pin on check page failed'' (Some e)))
     (bind (click_if_exists E ''(submit|check|search)'') (\<lambda>clicked.
        seq (if \<not> clicked then
               catch
                 (seq (call E (KeyboardPress ''Enter''))
                   (emit Okay ''Pressed Enter on check page'' None))
                 (\<lambda>e. emit Err ''Enter press on check page failed'' (Some e))
             else ret ())
          (seq (call E (WaitForTimeout 1200)) (ret ()))))))))))"

text \<open>The body of the first \<open>try\<close> block: the direct download.\<close>

definition direct_download :: "'w env \<Rightarrow> pin_row \<Rightarrow> path \<Rightarrow> ('w, path) prog" where
  "direct_download E row download_dir =
     bind (call E (RoleCount Button ''(download|print)'')) (\<lambda>bc.
       seq (if truthy bc then
              seq first_click
                (emit Okay ''Clicked download/print button'' None)
            else
              bind (call E (RoleCount Link ''(download|print)'')) (\<lambda>lc.
                if truthy lc then
                  seq first_click
                    (emit Okay ''Clicked download/print link'' None)
                else ret ()))
         (seq (call E (WaitForDownload 25000))
           (bind (call E SuggestedFilename) (\<lambda>suggested.
              seq (call E (SaveAs (Child download_dir
                     (passport row @ ''_'' @ py_str suggested))))
                (seq (emit Okay ''PDF saved'' None)
                  (seq (emit Plain ''=== download_one: END (direct) ==='' None)
                    (ret (Child download_dir
                       (passport row @ ''_'' @ py_str suggested)))))))))"

text \<open>
  The body of the second \<open>try\<close> block: the popup. Entering \<open>page.expect_popup\<close> is
  the call \<open>ExpectPopup\<close>; leaving the \<open>with\<close> block waits for the popup, which is the
  call \<open>PopupValue\<close>.
\<close>

definition popup_download :: "'w env \<Rightarrow> pin_row \<Rightarrow> path \<Rightarrow> ('w, path) prog" where
  "popup_download E row download_dir =
     seq (call E (ExpectPopup 25000))
     (seq (click_if_exists E ''(download|print|pdf)'')
     (seq (call E PopupValue)
     (seq (call E PopupUrl)
     (seq (emit Okay ''Popup opened'' None)
     (seq (call E (PopupWaitPdfResponse 25000))
     (seq (call E ResponseBody)
     (bind (call E LoopTimeMillis) (\<lambda>t.
        seq (call E (WriteBytes (Child download_dir
               (passport row @ ''_'' @ py_str t @ ''.pdf''))))
        (seq (call E PopupClose)
        (seq (emit Okay ''PDF saved (popup)'' None)
        (seq (emit Plain ''=== download_one: END (popup) ==='' None)
          (ret (Child download_dir
             (passport row @ ''_'' @ py_str t @ ''.pdf''))))))))))))))"

definition download_one ::
  "'w env \<Rightarrow> page \<Rightarrow> pin_row \<Rightarrow> path \<Rightarrow> ('w, path option) prog" where
  "download_one E pg row download_dir =
     seq (download_prelude E pg row)
       (catch
         (bind (direct_download E row download_dir) (\<lambda>out. ret (Some out)))
         (\<lambda>e. seq (emit Err ''Direct download failed'' (Some e))
            (catch
              (bind (popup_download E row download_dir) (\<lambda>out. ret (Some out)))
              (\<lambda>e2. seq (emit Err ''Popup download failed'' (Some e2))
                 (seq (emit Plain ''=== download_one: END (failed) ==='' None)
                   (ret None))))))"

text \<open>
  An environment in which every control matches once and every call succeeds, and one in
  which no control matches and the download event fires.
\<close>

definition env_controls_match :: "unit env" where
  "env_controls_match a w =
     (case a of
        RoleCount r p \<Rightarrow> (Inr (VInt 1), w)
      | SuggestedFilename \<Rightarrow> (Inr (VStr ''mdac.pdf''), w)
      | LoopTimeMillis \<Rightarrow> (Inr (VInt 1730000000000), w)
      | _ \<Rightarrow> (Inr VNone, w))"





section \<open>Setting a date field\<close>











section \<open>The register workflow from the gate on\<close>

text \<open>
  \<open>asyncio.wait_for\<close> on the event: it returns when the event is signalled and raises
  \<open>asyncio.TimeoutError\<close> when the ceiling elapses.
\<close>

definition wait_for :: "handle \<Rightarrow> gate_op list \<Rightarrow> gate \<Rightarrow> (exn + unit) \<times> gate" where
  "wait_for ev sched g =
     (case gate_wait ev sched g of
        (Signalled, g') \<Rightarrow> (Inr (), g')
      | (TimedOut, g') \<Rightarrow> (Inl AsyncioTimeout, g'))"

text \<open>
  The block \<open># Pause for manual CAPTCHA/OTP if requested\<close> of \<open>register_one\<close>. It works
  on the module's gate \<open>GATE\<close> beside the page, so the gate is passed in and returned.
  \<open>pause and gate_token\<close> holds when the flag is set and the token is neither \<open>None\<close> nor
  empty. The handler catches \<open>asyncio.TimeoutError\<close> and nothing else.
\<close>

definition register_gate ::
  "'w env \<Rightarrow> bool \<Rightarrow> token option \<Rightarrow> gate_op list \<Rightarrow> gate \<Rightarrow> 'w state
     \<Rightarrow> ((exn + unit) \<times> 'w state) \<times> gate" where
  "register_gate E pause gate_token sched g s =
     (case gate_token of
        None \<Rightarrow> ((Inr (), s), g)
      | Some t \<Rightarrow>
          if pause \<and> t \<noteq> '''' then
            (case seq (emit Plain ''PAUSE'' None)
                    (catch (seq (call E (EvaluateLog t)) (ret ())) (\<lambda>e. ret ())) s of
               (Inl e, s1) \<Rightarrow> ((Inl e, s1), g)
             | (Inr u, s1) \<Rightarrow>
                 (case create g t of
                    (ev, g1) \<Rightarrow>
                      (case wait_for ev sched g1 of
                         (Inr u, g2) \<Rightarrow> (emit Okay ''Gate resumed'' None s1, g2)
                       | (Inl AsyncioTimeout, g2) \<Rightarrow>
                           (emit Warn ''Gate timed out; continuing'' None s1, g2)
                       | (Inl (Error m), g2) \<Rightarrow> ((Inl (Error m), s1), g2))))
          else ((Inr (), s), g))"

text \<open>
  The rest of \<open>register_one\<close>, from \<open># Submit\<close> to the end. \<open>body_txt[:500]\<close> slices a
  string and raises on anything else.
\<close>

definition register_submit :: "'w env \<Rightarrow> page \<Rightarrow> ('w, string) prog" where
  "register_submit E pg =
     seq (emit Plain ''Try submit form (#submit or Enter)'' None)
     (seq (catch
            (seq (call E (Click ''#submit'' 5000)) (emit Okay ''Submit button clicked'' None))
            (\<lambda>e. seq (emit Warn ''#submit click failed; try Enter'' (Some e))
               (catch
                 (seq (call E (KeyboardPress ''Enter''))
                   (emit Okay ''Enter pressed for submit'' None))
                 (\<lambda>e2. emit Err ''Submit via Enter failed'' (Some e2)))))
     (seq (call E (WaitForTimeout 1500))
     (seq (screenshot E pg ''03_after_submit'')
     (bind (catch (call E (InnerText ''body'')) (\<lambda>e. ret (VStr ''submitted''))) (\<lambda>body_txt.
        case body_txt of
          VStr txt \<Rightarrow>
            seq (emit Plain ''Register result (excerpt)'' None)
              (seq (emit Plain ''=== register_one: END ==='' None) (ret (take 500 txt)))
        | _ \<Rightarrow> raise (Error ''TypeError''))))))"

definition register_after_fill ::
  "'w env \<Rightarrow> page \<Rightarrow> bool \<Rightarrow> token option \<Rightarrow> gate_op list \<Rightarrow> gate \<Rightarrow> 'w state
     \<Rightarrow> ((exn + string) \<times> 'w state) \<times> gate" where
  "register_after_fill E pg pause gate_token sched g s =
     (case register_gate E pause gate_token sched g s of
        ((Inl e, s1), g1) \<Rightarrow> ((Inl e, s1), g1)
      | ((Inr u, s1), g1) \<Rightarrow> (register_submit E pg s1, g1))"


section \<open>Opening a session and handling a row\<close>

definition attach_listeners :: "'w env \<Rightarrow> config \<Rightarrow> ('w, unit) prog" where
  "attach_listeners E cfg =
     seq (call E (PageOn ''console''))
     (seq (call E (PageOn ''pageerror''))
     (seq (call E (PageOn ''dialog''))
     (seq (if LOG_NETWORK cfg then
             seq (call E (PageOn ''request''))
               (seq (call E (PageOn ''response'')) (call E (PageOn ''requestfailed'')))
           else ret VNone)
     (seq (call E (PageOn ''framenavigated'')) (ret ())))))"

text \<open>
  \<open>open_context\<close>. The context and the page are objects of the environment; what the
  program keeps of them is the attribute it attaches to the page. The recording directory
  goes into the context arguments inside the \<open>try\<close> block, after the directory is made.
\<close>

definition open_context ::
  "'w env \<Rightarrow> config \<Rightarrow> path option \<Rightarrow> bool option \<Rightarrow> path option
     \<Rightarrow> ('w, page \<times> artifacts) prog" where
  "open_context E cfg download_dir headless record_video_dir =
     seq (call E PlaywrightStart)
     (seq (emit Plain ''Launching Chromium'' None)
     (seq (call E (Launch (case headless of None \<Rightarrow> HEADLESS_DEFAULT cfg | Some h \<Rightarrow> h)))
     (bind
       (case record_video_dir of
          None \<Rightarrow> ret None
        | Some d \<Rightarrow>
            catch
              (seq (call E (Mkdir d))
                (seq (emit Okay ''Video+Screens dir ready'' None)
                  (ret (Some (Child d ''screens'')))))
              (\<lambda>e. seq (emit Err ''Failed to prepare record_video_dir'' (Some e)) (ret None)))
       (\<lambda>screenshots_dir.
          seq (call E (NewContext
                 (if screenshots_dir = None then None else record_video_dir)))
          (seq (emit Okay ''New browser context created'' None)
          (seq (if RECORD_TRACE cfg \<and> record_video_dir \<noteq> None then
                  catch
                    (seq (call E TracingStart) (emit Okay ''Tracing started'' None))
                    (\<lambda>e. emit Err ''Tracing start failed'' (Some e))
                else ret ())
          (seq (call E NewPage)
          (seq (emit Okay ''New page created'' None)
          (seq (attach_listeners E cfg)
          (seq (if screenshots_dir \<noteq> None then
                  emit Okay ''Attached screenshots dir to page'' None
                else ret ())
          (seq (case download_dir of
                  None \<Rightarrow> ret ()
                | Some dd \<Rightarrow>
                    catch
                      (seq (call E (Mkdir dd)) (emit Okay ''Download dir ready'' None))
                      (\<lambda>e. emit Err ''Failed to prepare download_dir'' (Some e)))
            (ret (\<lparr>mdac_screens = screenshots_dir\<rparr>,
                  \<lparr>video_path = None, trace_path = None,
                   screenshots_dir = screenshots_dir\<rparr>)))))))))))))"

text \<open>
  The body of the row loops of \<open>register_rows\<close> and \<open>download_rows\<close> in \<open>main.py\<close>:
  the workflow is \<open>register_one\<close> or \<open>download_one\<close> on the page; it is handed the page
  and not the artifacts. The result is the workflow's value with the finalized artifacts,
  or the exception the row reports.
\<close>

definition process_row ::
  "'w env \<Rightarrow> config \<Rightarrow> (page \<Rightarrow> ('w, 'r) prog) \<Rightarrow> path option \<Rightarrow> bool option
     \<Rightarrow> path option \<Rightarrow> ('w, exn + 'r \<times> artifacts) prog" where
  "process_row E cfg workflow download_dir headless video_dir =
     bind (open_context E cfg download_dir headless video_dir) (\<lambda>(pg, artifacts).
       catch
         (bind (workflow pg) (\<lambda>info.
            bind (finalize_artifacts E cfg video_dir artifacts) (\<lambda>artifacts'.
              ret (Inr (info, artifacts')))))
         (\<lambda>e. seq (catch (seq (finalize_artifacts E cfg video_dir artifacts) (ret ()))
                     (\<lambda>e'. ret ()))
                (ret (Inl e))))"

section \<open>Properties of the code mappings\<close>

lemma to_lower_eq_m: "to_lower c = CHR ''m'' \<longleftrightarrow> c = CHR ''m'' \<or> c = CHR ''M''"
  by (cases c) (auto simp add: is_upper_def Let_def)

lemma to_lower_eq_f: "to_lower c = CHR ''f'' \<longleftrightarrow> c = CHR ''f'' \<or> c = CHR ''F''"
  by (cases c) (auto simp add: is_upper_def Let_def)

lemma to_lower_eq_a: "to_lower c = CHR ''a'' \<longleftrightarrow> c = CHR ''a'' \<or> c = CHR ''A''"
  by (cases c) (auto simp add: is_upper_def Let_def)

lemma strip_empty: "strip '''' = ''''"
  by (simp add: strip_def)

lemma startswith_Nil: "startswith t []"
  by (simp add: startswith_def)

lemma startswith_Cons:
  "startswith (lower t) (x # p) \<longleftrightarrow>
     (\<exists>c r. t = c # r \<and> to_lower c = x \<and> startswith (lower r) p)"
  by (cases t) (auto simp add: startswith_def lower_def)

lemma startswith_excl: "startswith t (x # p) \<Longrightarrow> x \<noteq> y \<Longrightarrow> \<not> startswith t (y # q)"
  by (cases t) (auto simp add: startswith_def)

lemma startswith_empty: "\<not> startswith (lower '''') (x # p)"
  by (simp add: startswith_def lower_def)

lemma to_lower_eq_i: "to_lower c = CHR ''i'' \<longleftrightarrow> c = CHR ''i'' \<or> c = CHR ''I''"
  by (cases c) (auto simp add: is_upper_def Let_def)

lemma to_lower_eq_r: "to_lower c = CHR ''r'' \<longleftrightarrow> c = CHR ''r'' \<or> c = CHR ''R''"
  by (cases c) (auto simp add: is_upper_def Let_def)

lemma sw_m: "startswith (lower t) ''m'' \<longleftrightarrow>
    (\<exists>c r. t = c # r \<and> (c = CHR ''m'' \<or> c = CHR ''M''))"
  by (simp only: startswith_Cons startswith_Nil to_lower_eq_m simp_thms)

lemma startswith_lower3:
  "startswith (lower t) [x, y, z] \<longleftrightarrow>
     (\<exists>c1 c2 c3 r. t = c1 # c2 # c3 # r \<and> to_lower c1 = x \<and> to_lower c2 = y \<and> to_lower c3 = z)"
proof (cases t)
  case Nil
  then show ?thesis by (simp add: startswith_def lower_def)
next
  case t1: (Cons c1 r1)
  show ?thesis
  proof (cases r1)
    case Nil
    with t1 show ?thesis by (simp add: startswith_def lower_def)
  next
    case t2: (Cons c2 r2)
    show ?thesis
    proof (cases r2)
      case Nil
      with t1 t2 show ?thesis by (simp add: startswith_def lower_def)
    next
      case (Cons c3 r)
      with t1 t2 show ?thesis by (simp add: startswith_def lower_def)
    qed
  qed
qed

lemma sw_air: "startswith (lower t) ''air'' \<longleftrightarrow>
    (\<exists>c1 c2 c3 r. t = c1 # c2 # c3 # r \<and>
        (c1 = CHR ''a'' \<or> c1 = CHR ''A'') \<and> (c2 = CHR ''i'' \<or> c2 = CHR ''I'') \<and>
        (c3 = CHR ''r'' \<or> c3 = CHR ''R''))"
  by (simp only: startswith_lower3 to_lower_eq_a to_lower_eq_i to_lower_eq_r)

lemma to_lower_eq_l: "to_lower c = CHR ''l'' \<longleftrightarrow> c = CHR ''l'' \<or> c = CHR ''L''"
  by (cases c) (auto simp add: is_upper_def Let_def)

lemma to_lower_eq_n: "to_lower c = CHR ''n'' \<longleftrightarrow> c = CHR ''n'' \<or> c = CHR ''N''"
  by (cases c) (auto simp add: is_upper_def Let_def)

lemma to_lower_eq_d: "to_lower c = CHR ''d'' \<longleftrightarrow> c = CHR ''d'' \<or> c = CHR ''D''"
  by (cases c) (auto simp add: is_upper_def Let_def)

lemma to_lower_eq_s: "to_lower c = CHR ''s'' \<longleftrightarrow> c = CHR ''s'' \<or> c = CHR ''S''"
  by (cases c) (auto simp add: is_upper_def Let_def)

lemma to_lower_eq_e: "to_lower c = CHR ''e'' \<longleftrightarrow> c = CHR ''e'' \<or> c = CHR ''E''"
  by (cases c) (auto simp add: is_upper_def Let_def)

lemma startswith_lower1:
  "startswith (lower t) [x] \<longleftrightarrow> (\<exists>c r. t = c # r \<and> to_lower c = x)"
  by (cases t) (simp_all add: startswith_def lower_def)

lemma startswith_lower4:
  "startswith (lower t) [x, y, z, w] \<longleftrightarrow>
     (\<exists>c1 c2 c3 c4 r. t = c1 # c2 # c3 # c4 # r \<and>
        to_lower c1 = x \<and> to_lower c2 = y \<and> to_lower c3 = z \<and> to_lower c4 = w)"
proof (cases t)
  case Nil
  then show ?thesis by (simp add: startswith_def lower_def)
next
  case t1: (Cons c1 r1)
  show ?thesis
  proof (cases r1)
    case Nil
    with t1 show ?thesis by (simp add: startswith_def lower_def)
  next
    case t2: (Cons c2 r2)
    show ?thesis
    proof (cases r2)
      case Nil
      with t1 t2 show ?thesis by (simp add: startswith_def lower_def)
    next
      case t3: (Cons c3 r3)
      show ?thesis
      proof (cases r3)
        case Nil
        with t1 t2 t3 show ?thesis by (simp add: startswith_def lower_def)
      next
        case (Cons c4 r)
        with t1 t2 t3 show ?thesis by (simp add: startswith_def lower_def)
      qed
    qed
  qed
qed

lemma sw_f: "startswith (lower t) ''f'' \<longleftrightarrow>
    (\<exists>c r. t = c # r \<and> (c = CHR ''f'' \<or> c = CHR ''F''))"
  by (simp only: startswith_lower1 to_lower_eq_f)

lemma sw_land: "startswith (lower t) ''land'' \<longleftrightarrow>
    (\<exists>c1 c2 c3 c4 r. t = c1 # c2 # c3 # c4 # r \<and>
        (c1 = CHR ''l'' \<or> c1 = CHR ''L'') \<and> (c2 = CHR ''a'' \<or> c2 = CHR ''A'') \<and>
        (c3 = CHR ''n'' \<or> c3 = CHR ''N'') \<and> (c4 = CHR ''d'' \<or> c4 = CHR ''D''))"
  by (simp only: startswith_lower4 to_lower_eq_l to_lower_eq_a to_lower_eq_n to_lower_eq_d)

lemma sw_sea: "startswith (lower t) ''sea'' \<longleftrightarrow>
    (\<exists>c1 c2 c3 r. t = c1 # c2 # c3 # r \<and>
        (c1 = CHR ''s'' \<or> c1 = CHR ''S'') \<and> (c2 = CHR ''e'' \<or> c2 = CHR ''E'') \<and>
        (c3 = CHR ''a'' \<or> c3 = CHR ''A''))"
  by (simp only: startswith_lower3 to_lower_eq_s to_lower_eq_e to_lower_eq_a)

lemma map_mode_air: "map_mode m = ''1'' \<longleftrightarrow>
    (\<exists>s. m = Some s \<and> startswith (lower (strip s)) ''air'')"
  by (cases m) (simp_all add: map_mode_def Let_def strip_empty startswith_empty)

lemma map_gender_male: "map_gender g = ''1'' \<longleftrightarrow>
    (\<exists>s. g = Some s \<and> startswith (lower (strip s)) ''m'')"
  by (cases g) (simp_all add: map_gender_def Let_def strip_empty startswith_empty)

lemma map_gender_female: "map_gender g = ''2'' \<longleftrightarrow>
    (\<exists>s. g = Some s \<and> startswith (lower (strip s)) ''f'')"
  using startswith_excl [of _ "CHR ''m''" "[]" "CHR ''f''" "[]"]
  by (cases g) (auto simp add: map_gender_def Let_def strip_empty startswith_empty)

lemma map_mode_land: "map_mode m = ''2'' \<longleftrightarrow>
    (\<exists>s. m = Some s \<and> startswith (lower (strip s)) ''land'')"
  using startswith_excl [of _ "CHR ''a''" "''ir''" "CHR ''l''" "''and''"]
  by (cases m) (auto simp add: map_mode_def Let_def strip_empty startswith_empty)

lemma map_mode_sea: "map_mode m = ''3'' \<longleftrightarrow>
    (\<exists>s. m = Some s \<and> startswith (lower (strip s)) ''sea'')"
  using startswith_excl [of _ "CHR ''a''" "''ir''" "CHR ''s''" "''ea''"]
    startswith_excl [of _ "CHR ''l''" "''and''" "CHR ''s''" "''ea''"]
  by (cases m) (auto simp add: map_mode_def Let_def strip_empty startswith_empty)

lemma map_gender_male_iff:
  "map_gender g = ''1'' \<longleftrightarrow>
     (\<exists>s c r. g = Some s \<and> strip s = c # r \<and> (c = CHR ''m'' \<or> c = CHR ''M''))"
  unfolding map_gender_male sw_m
  by (rule iffI; elim exE conjE; intro exI conjI; assumption)

lemma map_gender_female_iff:
  "map_gender g = ''2'' \<longleftrightarrow>
     (\<exists>s c r. g = Some s \<and> strip s = c # r \<and> (c = CHR ''f'' \<or> c = CHR ''F''))"
  unfolding map_gender_female sw_f
  by (rule iffI; elim exE conjE; intro exI conjI; assumption)

lemma map_mode_air_iff:
  "map_mode m = ''1'' \<longleftrightarrow>
     (\<exists>s c1 c2 c3 r. m = Some s \<and> strip s = c1 # c2 # c3 # r \<and>
        (c1 = CHR ''a'' \<or> c1 = CHR ''A'') \<and> (c2 = CHR ''i'' \<or> c2 = CHR ''I'') \<and>
        (c3 = CHR ''r'' \<or> c3 = CHR ''R''))"
  unfolding map_mode_air sw_air
  by (rule iffI; elim exE conjE; intro exI conjI; assumption)

lemma map_mode_land_iff:
  "map_mode m = ''2'' \<longleftrightarrow>
     (\<exists>s c1 c2 c3 c4 r. m = Some s \<and> strip s = c1 # c2 # c3 # c4 # r \<and>
        (c1 = CHR ''l'' \<or> c1 = CHR ''L'') \<and> (c2 = CHR ''a'' \<or> c2 = CHR ''A'') \<and>
        (c3 = CHR ''n'' \<or> c3 = CHR ''N'') \<and> (c4 = CHR ''d'' \<or> c4 = CHR ''D''))"
  unfolding map_mode_land sw_land
  by (rule iffI; elim exE conjE; intro exI conjI; assumption)

lemma map_mode_sea_iff:
  "map_mode m = ''3'' \<longleftrightarrow>
     (\<exists>s c1 c2 c3 r. m = Some s \<and> strip s = c1 # c2 # c3 # r \<and>
        (c1 = CHR ''s'' \<or> c1 = CHR ''S'') \<and> (c2 = CHR ''e'' \<or> c2 = CHR ''E'') \<and>
        (c3 = CHR ''a'' \<or> c3 = CHR ''A''))"
  unfolding map_mode_sea sw_sea
  by (rule iffI; elim exE conjE; intro exI conjI; assumption)

lemma map_gender_range: "map_gender g \<in> {''1'', ''2'', ''''}"
  by (simp add: map_gender_def Let_def split: option.splits)

lemma map_mode_range: "map_mode m \<in> {''1'', ''2'', ''3'', ''''}"
  by (simp add: map_mode_def Let_def split: option.splits)

lemma map_gender_words:
  "map_gender (Some ''male'') = ''1'' \<and> map_gender (Some ''female'') = ''2''
   \<and> map_gender None = '''' \<and> map_gender (Some '''') = ''''"
  by (simp add: map_gender_def lower_def strip_def startswith_def is_space_def is_upper_def)

lemma map_mode_words:
  "map_mode (Some ''air'') = ''1'' \<and> map_mode (Some ''land'') = ''2''
   \<and> map_mode (Some ''sea'') = ''3'' \<and> map_mode None = '''' \<and> map_mode (Some '''') = ''''"
  by (simp add: map_mode_def lower_def strip_def startswith_def is_space_def is_upper_def)

text \<open>
  Claim C5, as amended. The sex code is "1" exactly for the inputs that, once surrounding
  blanks are trimmed, begin with the letter m in either case, "2" exactly for those that
  begin with f, and the empty string for every other input, the missing and the empty one
  included. The travel-mode code is "1", "2", "3" exactly for the trimmed inputs that
  begin with air, land, sea in any mix of cases, and the empty string otherwise. The
  words male, female, air, land and sea themselves map to "1", "2", "1", "2", "3".
\<close>

theorem map_codes_by_prefix:
  "(map_gender g = ''1'' \<longleftrightarrow>
      (\<exists>s c r. g = Some s \<and> strip s = c # r \<and> (c = CHR ''m'' \<or> c = CHR ''M'')))
   \<and> (map_gender g = ''2'' \<longleftrightarrow>
      (\<exists>s c r. g = Some s \<and> strip s = c # r \<and> (c = CHR ''f'' \<or> c = CHR ''F'')))
   \<and> map_gender g \<in> {''1'', ''2'', ''''}
   \<and> (map_mode m = ''1'' \<longleftrightarrow>
      (\<exists>s c1 c2 c3 r. m = Some s \<and> strip s = c1 # c2 # c3 # r \<and>
        (c1 = CHR ''a'' \<or> c1 = CHR ''A'') \<and> (c2 = CHR ''i'' \<or> c2 = CHR ''I'') \<and>
        (c3 = CHR ''r'' \<or> c3 = CHR ''R'')))
   \<and> (map_mode m = ''2'' \<longleftrightarrow>
      (\<exists>s c1 c2 c3 c4 r. m = Some s \<and> strip s = c1 # c2 # c3 # c4 # r \<and>
        (c1 = CHR ''l'' \<or> c1 = CHR ''L'') \<and> (c2 = CHR ''a'' \<or> c2 = CHR ''A'') \<and>
        (c3 = CHR ''n'' \<or> c3 = CHR ''N'') \<and> (c4 = CHR ''d'' \<or> c4 = CHR ''D'')))
   \<and> (map_mode m = ''3'' \<longleftrightarrow>
      (\<exists>s c1 c2 c3 r. m = Some s \<and> strip s = c1 # c2 # c3 # r \<and>
        (c1 = CHR ''s'' \<or> c1 = CHR ''S'') \<and> (c2 = CHR ''e'' \<or> c2 = CHR ''E'') \<and>
        (c3 = CHR ''a'' \<or> c3 = CHR ''A'')))
   \<and> map_mode m \<in> {''1'', ''2'', ''3'', ''''}
   \<and> (map_gender (Some ''male'') = ''1'' \<and> map_gender (Some ''female'') = ''2''
      \<and> map_gender None = '''' \<and> map_gender (Some '''') = '''')
   \<and> (map_mode (Some ''air'') = ''1'' \<and> map_mode (Some ''land'') = ''2''
      \<and> map_mode (Some ''sea'') = ''3'' \<and> map_mode None = '''' \<and> map_mode (Some '''') = '''')"
  apply (rule conjI, rule map_gender_male_iff)
  apply (rule conjI, rule map_gender_female_iff)
  apply (rule conjI, rule map_gender_range)
  apply (rule conjI, rule map_mode_air_iff)
  apply (rule conjI, rule map_mode_land_iff)
  apply (rule conjI, rule map_mode_sea_iff)
  apply (rule conjI, rule map_mode_range)
  apply (rule conjI, rule map_gender_words)
  apply (rule map_mode_words)
  done

text \<open>
  Claim C5 as stated fails: the input "Mx" is neither male nor female and gets the sex
  code "1", and the input "airport" is none of air, land, sea and gets the mode code "1".
\<close>

theorem map_codes_counterexample:
  "spec_sex_code (Some ''Mx'') = '''' \<and> map_gender (Some ''Mx'') = ''1''
   \<and> spec_mode_code (Some ''airport'') = '''' \<and> map_mode (Some ''airport'') = ''1''"
  by (simp add: spec_sex_code_def spec_mode_code_def map_gender_def map_mode_def
      lower_def strip_def startswith_def is_space_def is_upper_def)

section \<open>Properties of the manual gate\<close>

lemma resume_absent: "events g t = None \<Longrightarrow> resume g t = (False, g)"
  by (simp add: resume_def)

lemma resume_present:
  "events g t = Some ev \<Longrightarrow>
     resume g t = (True, g\<lparr>flag := (flag g)(ev := True), events := (events g)(t := None)\<rparr>)"
  by (simp add: resume_def)

lemma resume_removes: "events (snd (resume g t)) t = None"
  by (simp add: resume_def split: option.splits)

lemma resume_twice_state:
  "((\<lambda>g'. snd (resume g' t)) ^^ n) (snd (resume g t)) = snd (resume g t)"
proof (induction n)
  case 0
  show ?case by simp
next
  case (Suc n)
  have "snd (resume (snd (resume g t)) t) = snd (resume g t)"
    by (simp add: resume_absent [OF resume_removes])
  with Suc show ?case by simp
qed

text \<open>
  Claim C2. When the token is mapped to a pending handle, the first \<open>resume\<close> returns
  success, signals that handle, removes the token and leaves every other token's entry
  as it was; the next \<open>resume\<close> of the same token, and every one after it, returns
  failure and leaves the gate unchanged. When the token is not mapped, \<open>resume\<close> returns
  failure and leaves the gate unchanged.
\<close>

theorem resume_exactly_once:
  "(events g t = Some ev \<longrightarrow>
      fst (resume g t) = True
      \<and> events (snd (resume g t)) t = None
      \<and> (\<forall>u. u \<noteq> t \<longrightarrow> events (snd (resume g t)) u = events g u)
      \<and> flag (snd (resume g t)) ev
      \<and> resume (snd (resume g t)) t = (False, snd (resume g t))
      \<and> (\<forall>n. ((\<lambda>g'. snd (resume g' t)) ^^ n) (snd (resume g t)) = snd (resume g t)))
   \<and> (events g t = None \<longrightarrow> resume g t = (False, g))"
proof (intro conjI impI)
  assume m: "events g t = Some ev"
  show "fst (resume g t) = True" using m by (simp add: resume_present)
  show "events (snd (resume g t)) t = None" by (rule resume_removes)
  show "\<forall>u. u \<noteq> t \<longrightarrow> events (snd (resume g t)) u = events g u"
    using m by (simp add: resume_present)
  show "flag (snd (resume g t)) ev" using m by (simp add: resume_present)
  show "resume (snd (resume g t)) t = (False, snd (resume g t))"
    using resume_removes by (rule resume_absent)
  show "\<forall>n. ((\<lambda>g'. snd (resume g' t)) ^^ n) (snd (resume g t)) = snd (resume g t)"
    by (simp add: resume_twice_state)
next
  assume "events g t = None"
  then show "resume g t = (False, g)" by (rule resume_absent)
qed

theorem resume_exactly_once_witness:
  "events (snd (create empty_gate ''a1b2c3d4'')) ''a1b2c3d4'' = Some 0
   \<and> fst (resume (snd (create empty_gate ''a1b2c3d4'')) ''a1b2c3d4'') = True
   \<and> events (snd (resume (snd (create empty_gate ''a1b2c3d4'')) ''a1b2c3d4'')) ''a1b2c3d4''
       = None
   \<and> fst (resume (snd (resume (snd (create empty_gate ''a1b2c3d4'')) ''a1b2c3d4''))
       ''a1b2c3d4'') = False
   \<and> events empty_gate ''ffff0000'' = None
   \<and> resume empty_gate ''ffff0000'' = (False, empty_gate)"
proof -
  have h: "events (snd (create empty_gate ''a1b2c3d4'')) ''a1b2c3d4'' = Some 0"
    by (simp add: create_def empty_gate_def)
  have n: "events empty_gate ''ffff0000'' = None"
    by (simp add: empty_gate_def)
  from resume_exactly_once [of "snd (create empty_gate ''a1b2c3d4'')" "''a1b2c3d4''" 0] h
  have a: "fst (resume (snd (create empty_gate ''a1b2c3d4'')) ''a1b2c3d4'') = True
    \<and> events (snd (resume (snd (create empty_gate ''a1b2c3d4'')) ''a1b2c3d4'')) ''a1b2c3d4''
       = None
    \<and> resume (snd (resume (snd (create empty_gate ''a1b2c3d4'')) ''a1b2c3d4'')) ''a1b2c3d4''
       = (False, snd (resume (snd (create empty_gate ''a1b2c3d4'')) ''a1b2c3d4''))"
    by blast
  from resume_exactly_once [of empty_gate "''ffff0000''" 0] n
  have b: "resume empty_gate ''ffff0000'' = (False, empty_gate)"
    by blast
  from a have c: "fst (resume (snd (resume (snd (create empty_gate ''a1b2c3d4'')) ''a1b2c3d4''))
       ''a1b2c3d4'') = False"
    by (simp only: fst_conv)
  from h n a b c show ?thesis by (intro conjI) (elim conjE, assumption)+
qed

section \<open>Invariants of the manual gate\<close>

lemma gate_ok_empty: "gate_ok empty_gate"
  by (simp add: gate_ok_def empty_gate_def)

lemma gate_ok_create: "gate_ok g \<Longrightarrow> gate_ok (snd (create g t))"
  unfolding gate_ok_def create_def Let_def
  by (auto simp add: less_Suc_eq split: if_splits)

lemma gate_ok_resume: "gate_ok g \<Longrightarrow> gate_ok (snd (resume g t))"
  unfolding gate_ok_def resume_def
  by (auto split: option.splits if_splits)

lemma gate_ok_apply: "gate_ok g \<Longrightarrow> gate_ok (apply_op a g)"
  by (cases a) (simp_all add: gate_ok_create gate_ok_resume)

lemma gate_ok_run: "gate_ok g \<Longrightarrow> gate_ok (run_ops ops g)"
  by (induction ops arbitrary: g) (simp_all add: gate_ok_apply)

lemma quiet_create: "quiet ev owner g \<Longrightarrow> quiet ev owner (snd (create g t))"
  unfolding quiet_def create_def Let_def
  by (auto simp add: less_Suc_eq split: if_splits)

lemma quiet_resume:
  "quiet ev owner g \<Longrightarrow> owner \<noteq> Some t \<Longrightarrow> quiet ev owner (snd (resume g t))"
  unfolding quiet_def resume_def
  by (auto split: option.splits if_splits)

lemma quiet_apply:
  "quiet ev owner g \<Longrightarrow> (\<forall>t. owner = Some t \<longrightarrow> a \<noteq> Resume t) \<Longrightarrow> quiet ev owner (apply_op a g)"
proof (cases a)
  case (Create t)
  assume "quiet ev owner g"
  then show ?thesis using Create by (simp add: quiet_create)
next
  case (Resume t)
  assume q: "quiet ev owner g" and n: "\<forall>t. owner = Some t \<longrightarrow> a \<noteq> Resume t"
  from n Resume have "owner \<noteq> Some t" by auto
  with q show ?thesis using Resume by (simp add: quiet_resume)
qed

lemma quiet_run:
  "quiet ev owner g \<Longrightarrow> (\<forall>t. owner = Some t \<longrightarrow> Resume t \<notin> set ops) \<Longrightarrow>
     quiet ev owner (run_ops ops g)"
proof (induction ops arbitrary: g)
  case Nil
  then show ?case by simp
next
  case (Cons a ops)
  have "quiet ev owner (apply_op a g)"
    using Cons.prems by (intro quiet_apply) auto
  then show ?case using Cons.IH Cons.prems by simp
qed

lemma quiet_wait:
  "quiet ev owner g \<Longrightarrow> (\<forall>t. owner = Some t \<longrightarrow> Resume t \<notin> set ops) \<Longrightarrow>
     gate_wait ev ops g = (TimedOut, run_ops ops g)"
proof (induction ops arbitrary: g)
  case Nil
  then show ?case by (simp add: quiet_def)
next
  case (Cons a ops)
  have q: "quiet ev owner (apply_op a g)"
    using Cons.prems by (intro quiet_apply) auto
  have "\<not> flag g ev" using Cons.prems(1) by (simp add: quiet_def)
  then show ?case using Cons.IH [OF q] Cons.prems(2) by simp
qed

lemma create_fresh_quiet:
  "gate_ok g \<Longrightarrow> quiet (fst (create g t)) (Some t) (snd (create g t))"
  unfolding gate_ok_def quiet_def create_def Let_def
  by (auto simp add: less_Suc_eq split: if_splits)

lemma create_orphans:
  "gate_ok g \<Longrightarrow> events g t = Some ev \<Longrightarrow> quiet ev None (snd (create g t))"
  unfolding gate_ok_def quiet_def create_def Let_def
  by (auto simp add: less_Suc_eq split: if_splits)

lemma create_new_handle:
  "gate_ok g \<Longrightarrow> events g t = Some ev \<Longrightarrow> fst (create g t) \<noteq> ev"
  unfolding gate_ok_def create_def Let_def by auto

lemma kept_apply:
  "events g t \<noteq> None \<Longrightarrow> a \<noteq> Resume t \<Longrightarrow> events (apply_op a g) t \<noteq> None"
  by (cases a) (auto simp add: create_def resume_def Let_def split: option.splits)

lemma only_resume_removes:
  "events g t \<noteq> None \<Longrightarrow> events (run_ops ops g) t = None \<Longrightarrow> Resume t \<in> set ops"
proof (induction ops arbitrary: g)
  case Nil
  then show ?case by simp
next
  case (Cons a ops)
  show ?case
  proof (cases "a = Resume t")
    case True
    then show ?thesis by simp
  next
    case False
    with Cons.prems(1) have "events (apply_op a g) t \<noteq> None" by (rule kept_apply)
    with Cons.IH Cons.prems(2) show ?thesis by simp
  qed
qed

text \<open>
  Claim C10. In a gate built from the empty one by any calls, let the token be mapped to
  a pending handle. A second \<open>create\<close> of the token allocates a fresh handle, different
  from the earlier one, and maps the token to it. From then on, whatever calls are made on
  the gate, the earlier handle is mapped by no token and its flag is never raised, so a
  wait on it ends by the ceiling only.
\<close>

theorem create_replaces_handle:
  assumes "g = run_ops ops0 empty_gate"
    and "events g t = Some ev1"
    and "create g t = (ev2, g1)"
  shows "ev2 \<noteq> ev1 \<and> events g1 t = Some ev2 \<and> \<not> flag g1 ev1 \<and> \<not> flag g1 ev2
    \<and> (\<forall>ops. \<not> flag (run_ops ops g1) ev1
          \<and> (\<forall>u. events (run_ops ops g1) u \<noteq> Some ev1)
          \<and> gate_wait ev1 ops g1 = (TimedOut, run_ops ops g1))"
proof -
  have ok: "gate_ok g"
    using assms(1) gate_ok_empty by (simp add: gate_ok_run)
  have ev2: "ev2 = fst (create g t)" and g1: "g1 = snd (create g t)"
    using assms(3) by simp_all
  have new: "ev2 \<noteq> ev1"
    using create_new_handle [OF ok assms(2)] ev2 by simp
  have mapped: "events g1 t = Some ev2"
    using assms(3) by (auto simp add: create_def Let_def)
  have q: "quiet ev1 None g1"
    using create_orphans [OF ok assms(2)] g1 by simp
  have q2: "quiet ev2 (Some t) g1"
    using create_fresh_quiet [OF ok, of t] ev2 g1 by simp
  have later: "\<not> flag (run_ops ops g1) ev1
          \<and> (\<forall>u. events (run_ops ops g1) u \<noteq> Some ev1)
          \<and> gate_wait ev1 ops g1 = (TimedOut, run_ops ops g1)" for ops
  proof -
    have "quiet ev1 None (run_ops ops g1)" using q by (rule quiet_run) simp
    moreover have "gate_wait ev1 ops g1 = (TimedOut, run_ops ops g1)"
      using q by (rule quiet_wait) simp
    ultimately show ?thesis by (simp add: quiet_def)
  qed
  from q have "\<not> flag g1 ev1" by (simp add: quiet_def)
  moreover from q2 have "\<not> flag g1 ev2" by (simp add: quiet_def)
  ultimately show ?thesis using new mapped later by blast
qed

theorem create_replaces_handle_witness:
  "events (run_ops [Create ''a1b2c3d4''] empty_gate) ''a1b2c3d4'' = Some 0
   \<and> fst (create (run_ops [Create ''a1b2c3d4''] empty_gate) ''a1b2c3d4'') = 1
   \<and> \<not> flag (run_ops [Resume ''a1b2c3d4'', Resume ''a1b2c3d4'']
         (snd (create (run_ops [Create ''a1b2c3d4''] empty_gate) ''a1b2c3d4''))) 0
   \<and> fst (gate_wait 0 [Resume ''a1b2c3d4'', Resume ''a1b2c3d4'']
         (snd (create (run_ops [Create ''a1b2c3d4''] empty_gate) ''a1b2c3d4''))) = TimedOut"
proof -
  have h: "events (run_ops [Create ''a1b2c3d4''] empty_gate) ''a1b2c3d4'' = Some 0"
    by (simp add: create_def empty_gate_def)
  have c: "create (run_ops [Create ''a1b2c3d4''] empty_gate) ''a1b2c3d4''
      = (1, snd (create (run_ops [Create ''a1b2c3d4''] empty_gate) ''a1b2c3d4''))"
    by (simp add: create_def empty_gate_def)
  from create_replaces_handle [OF refl h c]
  have "\<not> flag (run_ops [Resume ''a1b2c3d4'', Resume ''a1b2c3d4'']
         (snd (create (run_ops [Create ''a1b2c3d4''] empty_gate) ''a1b2c3d4''))) 0
    \<and> gate_wait 0 [Resume ''a1b2c3d4'', Resume ''a1b2c3d4'']
         (snd (create (run_ops [Create ''a1b2c3d4''] empty_gate) ''a1b2c3d4''))
       = (TimedOut, run_ops [Resume ''a1b2c3d4'', Resume ''a1b2c3d4'']
         (snd (create (run_ops [Create ''a1b2c3d4''] empty_gate) ''a1b2c3d4'')))"
    by blast
  then have w: "\<not> flag (run_ops [Resume ''a1b2c3d4'', Resume ''a1b2c3d4'']
         (snd (create (run_ops [Create ''a1b2c3d4''] empty_gate) ''a1b2c3d4''))) 0
    \<and> fst (gate_wait 0 [Resume ''a1b2c3d4'', Resume ''a1b2c3d4'']
         (snd (create (run_ops [Create ''a1b2c3d4''] empty_gate) ''a1b2c3d4''))) = TimedOut"
    by (simp only: fst_conv simp_thms)
  have f: "fst (create (run_ops [Create ''a1b2c3d4''] empty_gate) ''a1b2c3d4'') = 1"
    by (simp add: create_def empty_gate_def)
  from h f w show ?thesis by (intro conjI) (elim conjE, assumption)+
qed

section \<open>Running programs\<close>

text \<open>
  How a program applied to a state unfolds, what a normal result says about its parts,
  and what a program adds to the trace.
\<close>

lemmas run_defs = ret_def raise_def bind_def seq_def catch_def call_def emit_def

lemma ret_apply: "ret x s = (Inr x, s)"
  by (simp add: ret_def)

lemma raise_apply: "raise e s = (Inl e, s)"
  by (simp add: raise_def)

lemma bind_apply:
  "bind m f s = (case m s of (Inl e, s') \<Rightarrow> (Inl e, s') | (Inr x, s') \<Rightarrow> f x s')"
  by (simp add: bind_def)

lemma seq_apply:
  "seq m n s = (case m s of (Inl e, s') \<Rightarrow> (Inl e, s') | (Inr x, s') \<Rightarrow> n s')"
  by (simp add: seq_def bind_def)

lemma catch_apply:
  "catch m h s = (case m s of (Inl e, s') \<Rightarrow> h e s' | (Inr x, s') \<Rightarrow> (Inr x, s'))"
  by (simp add: catch_def)

lemma call_apply:
  "call E a (w, tr) = (case E a w of (r, w') \<Rightarrow> (r, (w', tr @ [Call a])))"
  by (simp add: call_def)

lemma emit_apply: "emit l msg e (w, tr) = (Inr (), (w, tr @ [Log l msg e]))"
  by (simp add: emit_def)

lemmas run_simps =
  ret_apply raise_apply bind_apply seq_apply catch_apply call_apply emit_apply

lemma seq_emit_apply: "seq (emit lv msg e) n (w, tr) = n (w, tr @ [Log lv msg e])"
  by (simp add: run_simps)

lemma seq_catch_call_apply:
  "seq (catch (seq (call E a) x) h) rest (w, tr) =
     (case E a w of
        (Inl e, w') \<Rightarrow> seq (h e) rest (w', tr @ [Call a])
      | (Inr v, w') \<Rightarrow> seq (catch x h) rest (w', tr @ [Call a]))"
  by (simp add: run_simps split: prod.splits sum.splits)

lemma seq_InrE:
  assumes "seq m n s = (Inr y, s')"
  obtains x s1 where "m s = (Inr x, s1)" and "n s1 = (Inr y, s')"
  using assms by (auto simp add: seq_apply split: prod.splits sum.splits)

lemma bind_InrE:
  assumes "bind m f s = (Inr y, s')"
  obtains x s1 where "m s = (Inr x, s1)" and "f x s1 = (Inr y, s')"
  using assms by (auto simp add: bind_apply split: prod.splits sum.splits)

lemma call_Inr_world:
  "call E a (w, tr) = (Inr v, s1) \<Longrightarrow> fst s1 = snd (E a w) \<and> snd s1 = tr @ [Call a]"
  by (auto simp add: call_apply split: prod.splits)

lemma emit_world: "emit lv msg e s = (r, s1) \<Longrightarrow> fst s1 = fst s"
  by (cases s) (auto simp add: emit_apply)

lemma emits_only_ret: "emits_only P (ret x)"
  by (simp add: emits_only_def ret_def)

lemma emits_only_raise: "emits_only P (raise e)"
  by (simp add: emits_only_def raise_def)

lemma emits_only_emit: "P (Log l msg e) \<Longrightarrow> emits_only P (emit l msg e)"
  by (simp add: emits_only_def emit_def split: prod.splits)

lemma emits_only_call: "P (Call a) \<Longrightarrow> emits_only P (call E a)"
  by (simp add: emits_only_def call_def split: prod.splits)

lemma emits_only_bind:
  assumes "emits_only P m" and "\<And>x. emits_only P (f x)"
  shows "emits_only P (bind m f)"
  unfolding emits_only_def
proof
  fix s
  obtain r s' where ms: "m s = (r, s')" by (cases "m s")
  from assms(1) ms obtain l1 where l1: "snd s' = snd s @ l1" "\<forall>x \<in> set l1. P x"
    unfolding emits_only_def by (metis snd_conv)
  show "\<exists>l. snd (snd (bind m f s)) = snd s @ l \<and> (\<forall>x \<in> set l. P x)"
  proof (cases r)
    case (Inl e)
    with ms l1 show ?thesis by (simp add: bind_def)
  next
    case (Inr x)
    from assms(2) [of x] obtain l2 where
      l2: "snd (snd (f x s')) = snd s' @ l2" "\<forall>x \<in> set l2. P x"
      unfolding emits_only_def by blast
    have "snd (snd (bind m f s)) = snd s @ (l1 @ l2)"
      using ms Inr l1 l2 by (simp add: bind_def)
    moreover have "\<forall>x \<in> set (l1 @ l2). P x" using l1 l2 by auto
    ultimately show ?thesis by blast
  qed
qed

lemma emits_only_seq:
  "emits_only P m \<Longrightarrow> emits_only P n \<Longrightarrow> emits_only P (seq m n)"
  unfolding seq_def by (rule emits_only_bind)

lemma emits_only_catch:
  assumes "emits_only P m" and "\<And>e. emits_only P (h e)"
  shows "emits_only P (catch m h)"
  unfolding emits_only_def
proof
  fix s
  obtain r s' where ms: "m s = (r, s')" by (cases "m s")
  from assms(1) ms obtain l1 where l1: "snd s' = snd s @ l1" "\<forall>x \<in> set l1. P x"
    unfolding emits_only_def by (metis snd_conv)
  show "\<exists>l. snd (snd (catch m h s)) = snd s @ l \<and> (\<forall>x \<in> set l. P x)"
  proof (cases r)
    case (Inr x)
    with ms l1 show ?thesis by (simp add: catch_def)
  next
    case (Inl e)
    from assms(2) [of e] obtain l2 where
      l2: "snd (snd (h e s')) = snd s' @ l2" "\<forall>x \<in> set l2. P x"
      unfolding emits_only_def by blast
    have "snd (snd (catch m h s)) = snd s @ (l1 @ l2)"
      using ms Inl l1 l2 by (simp add: catch_def)
    moreover have "\<forall>x \<in> set (l1 @ l2). P x" using l1 l2 by auto
    ultimately show ?thesis by blast
  qed
qed

lemma emits_only_if:
  "emits_only P m \<Longrightarrow> emits_only P n \<Longrightarrow> emits_only P (if b then m else n)"
  by simp

lemmas emits_only_intros =
  emits_only_ret emits_only_raise emits_only_emit emits_only_call emits_only_bind
  emits_only_seq emits_only_catch emits_only_if

lemma emits_only_weaken:
  "emits_only P m \<Longrightarrow> (\<And>x. P x \<Longrightarrow> Q x) \<Longrightarrow> emits_only Q m"
  unfolding emits_only_def by metis

lemma emits_only_trace:
  "emits_only (\<lambda>_. True) m \<Longrightarrow> \<exists>l. snd (snd (m (w, tr))) = tr @ l"
  unfolding emits_only_def by (metis snd_conv)


section \<open>Properties of the finalizer\<close>

lemma stop_trace_step_run:
  "stop_trace_step E cfg rd a (w, tr) =
     (case rd of
        None \<Rightarrow> (Inr a, (w, tr))
      | Some d \<Rightarrow>
          if RECORD_TRACE cfg then
            (case E (TracingStop (Child d ''trace.zip'')) w of
               (Inl e, w') \<Rightarrow>
                 (Inr a, (w', tr @ [Call (TracingStop (Child d ''trace.zip'')),
                                     Log Err ''Trace stop failed'' (Some e)]))
             | (Inr v, w') \<Rightarrow>
                 (Inr (a\<lparr>trace_path := Some (Child d ''trace.zip'')\<rparr>),
                  (w', tr @ [Call (TracingStop (Child d ''trace.zip'')),
                             Log Okay ''Trace saved'' None])))
          else (Inr a, (w, tr)))"
  by (simp add: stop_trace_step_def run_defs split: option.splits prod.splits sum.splits)

lemma close_step_run:
  "close_step E a (w, tr) =
     (case E ContextClose w of
        (Inl e, w') \<Rightarrow>
          (Inr a, (w', tr @ [Call ContextClose, Log Err ''Context close failed'' (Some e)]))
      | (Inr v, w') \<Rightarrow>
          (Inr a, (w', tr @ [Call ContextClose, Log Okay ''Context closed'' None])))"
  by (simp add: close_step_def run_defs split: prod.splits sum.splits)

lemma video_step_run:
  "video_step E a (w, tr) =
     (case E PageVideo w of
        (Inl e, w') \<Rightarrow>
          (Inr a, (w', tr @ [Call PageVideo, Log Err ''Video path fetch failed'' (Some e)]))
      | (Inr v, w') \<Rightarrow>
          if truthy v then
            (case E VideoPath w' of
               (Inl e, w'') \<Rightarrow>
                 (Inr a, (w'', tr @ [Call PageVideo, Call VideoPath,
                                      Log Err ''Video path fetch failed'' (Some e)]))
             | (Inr vp, w'') \<Rightarrow>
                 (case to_path vp of
                    Inl e \<Rightarrow>
                      (Inr a, (w'', tr @ [Call PageVideo, Call VideoPath,
                                           Log Err ''Video path fetch failed'' (Some e)]))
                  | Inr p \<Rightarrow>
                      (Inr (a\<lparr>video_path := Some p\<rparr>),
                       (w'', tr @ [Call PageVideo, Call VideoPath,
                                   Log Okay ''Video saved'' None]))))
          else (Inr a, (w', tr @ [Call PageVideo])))"
  by (simp add: video_step_def run_defs split: prod.splits sum.splits)

lemma stop_trace_step_shape:
  "\<exists>a1 w1 l1.
     stop_trace_step E cfg rd a (w, tr) = (Inr a1, (w1, tr @ l1))
   \<and> video_path a1 = video_path a \<and> screenshots_dir a1 = screenshots_dir a
   \<and> l1 = (case rd of
             None \<Rightarrow> []
           | Some d \<Rightarrow>
               if RECORD_TRACE cfg then
                 [Call (TracingStop (Child d ''trace.zip'')),
                  (case fst (E (TracingStop (Child d ''trace.zip'')) w) of
                     Inl e \<Rightarrow> Log Err ''Trace stop failed'' (Some e)
                   | Inr v \<Rightarrow> Log Okay ''Trace saved'' None)]
               else [])"
proof (cases rd)
  case None
  then show ?thesis by (simp add: stop_trace_step_run)
next
  case (Some d)
  show ?thesis
  proof (cases "RECORD_TRACE cfg")
    case False
    with Some show ?thesis by (simp add: stop_trace_step_run)
  next
    case True
    obtain r w' where e: "E (TracingStop (Child d ''trace.zip'')) w = (r, w')"
      by (cases "E (TracingStop (Child d ''trace.zip'')) w")
    show ?thesis
      using Some True e by (cases r) (simp_all add: stop_trace_step_run)
  qed
qed

lemma close_step_shape:
  "\<exists>w2.
     close_step E a (w, tr) =
       (Inr a, (w2, tr @ [Call ContextClose,
          (case fst (E ContextClose w) of
             Inl e \<Rightarrow> Log Err ''Context close failed'' (Some e)
           | Inr v \<Rightarrow> Log Okay ''Context closed'' None)]))"
proof -
  obtain r w' where e: "E ContextClose w = (r, w')"
    by (cases "E ContextClose w")
  show ?thesis using e by (cases r) (simp_all add: close_step_run)
qed

lemma video_step_shape:
  "\<exists>a3 w3.
     video_step E a (w, tr) =
       (Inr a3, (w3, tr @ Call PageVideo #
          (case fst (E PageVideo w) of
             Inl e \<Rightarrow> [Log Err ''Video path fetch failed'' (Some e)]
           | Inr v \<Rightarrow>
               if truthy v then
                 [Call VideoPath,
                  (case fst (E VideoPath (snd (E PageVideo w))) of
                     Inl e \<Rightarrow> Log Err ''Video path fetch failed'' (Some e)
                   | Inr vp \<Rightarrow>
                       (case to_path vp of
                          Inl e \<Rightarrow> Log Err ''Video path fetch failed'' (Some e)
                        | Inr p \<Rightarrow> Log Okay ''Video saved'' None))]
               else [])))
   \<and> trace_path a3 = trace_path a \<and> screenshots_dir a3 = screenshots_dir a
   \<and> video_path a3 =
       (case fst (E PageVideo w) of
          Inl e \<Rightarrow> video_path a
        | Inr v \<Rightarrow>
            if truthy v then
              (case fst (E VideoPath (snd (E PageVideo w))) of
                 Inl e \<Rightarrow> video_path a
               | Inr vp \<Rightarrow>
                   (case to_path vp of Inl e \<Rightarrow> video_path a | Inr p \<Rightarrow> Some p))
            else video_path a)"
proof -
  obtain r w' where e: "E PageVideo w = (r, w')"
    by (cases "E PageVideo w")
  show ?thesis
  proof (cases r)
    case (Inl x)
    with e show ?thesis by (simp add: video_step_run)
  next
    case (Inr v)
    show ?thesis
    proof (cases "truthy v")
      case False
      with e Inr show ?thesis by (simp add: video_step_run)
    next
      case True
      obtain r2 w'' where e2: "E VideoPath w' = (r2, w'')"
        by (cases "E VideoPath w'")
      show ?thesis
      proof (cases r2)
        case (Inl x)
        with e Inr True e2 show ?thesis by (simp add: video_step_run)
      next
        case vp: (Inr vp)
        show ?thesis
          using e Inr True e2 vp by (cases "to_path vp") (simp_all add: video_step_run)
      qed
    qed
  qed
qed

lemma finalize_artifacts_unfold:
  "stop_trace_step E cfg rd a s = (Inr a1, s1) \<Longrightarrow> close_step E a1 s1 = (Inr a2, s2) \<Longrightarrow>
     finalize_artifacts E cfg rd a s = video_step E a2 s2"
  by (simp add: finalize_artifacts_def bind_def)

text \<open>
  Claim C6. Every run of the finalizer returns normally and attempts its three steps in
  this order: the trace stop, which the source guards by the tracing switch and the
  recording directory, so that the attempt is the call exactly when tracing is enabled and
  a recording directory was given; the context close; and the resolution of the video
  path, which looks up the page's recording and queries its path when the page has one.
  Each step is attempted whatever the outcome of the ones before it: a step that raises
  prints its own failure line and the next step runs. In particular the context close is
  attempted after every trace-stop attempt, failed or not.
\<close>

theorem finalize_attempts_steps:
  "\<exists>a1 w1 l1 a2 w2 l2 a3 w3 l3.
     stop_trace_step E cfg rd a (w, tr) = (Inr a1, (w1, tr @ l1))
   \<and> close_step E a1 (w1, tr @ l1) = (Inr a2, (w2, tr @ l1 @ Call ContextClose # l2))
   \<and> video_step E a2 (w2, tr @ l1 @ Call ContextClose # l2) =
       (Inr a3, (w3, tr @ l1 @ Call ContextClose # l2 @ Call PageVideo # l3))
   \<and> finalize_artifacts E cfg rd a (w, tr) =
       (Inr a3, (w3, tr @ l1 @ Call ContextClose # l2 @ Call PageVideo # l3))
   \<and> l1 = (case rd of
             None \<Rightarrow> []
           | Some d \<Rightarrow>
               if RECORD_TRACE cfg then
                 [Call (TracingStop (Child d ''trace.zip'')),
                  (case fst (E (TracingStop (Child d ''trace.zip'')) w) of
                     Inl e \<Rightarrow> Log Err ''Trace stop failed'' (Some e)
                   | Inr v \<Rightarrow> Log Okay ''Trace saved'' None)]
               else [])
   \<and> l2 = [case fst (E ContextClose w1) of
             Inl e \<Rightarrow> Log Err ''Context close failed'' (Some e)
           | Inr v \<Rightarrow> Log Okay ''Context closed'' None]
   \<and> l3 = (case fst (E PageVideo w2) of
             Inl e \<Rightarrow> [Log Err ''Video path fetch failed'' (Some e)]
           | Inr v \<Rightarrow>
               if truthy v then
                 [Call VideoPath,
                  (case fst (E VideoPath (snd (E PageVideo w2))) of
                     Inl e \<Rightarrow> Log Err ''Video path fetch failed'' (Some e)
                   | Inr vp \<Rightarrow>
                       (case to_path vp of
                          Inl e \<Rightarrow> Log Err ''Video path fetch failed'' (Some e)
                        | Inr p \<Rightarrow> Log Okay ''Video saved'' None))]
               else [])"
proof -
  obtain a1 w1 l1 where
    s1: "stop_trace_step E cfg rd a (w, tr) = (Inr a1, (w1, tr @ l1))"
    and l1: "l1 = (case rd of
             None \<Rightarrow> []
           | Some d \<Rightarrow>
               if RECORD_TRACE cfg then
                 [Call (TracingStop (Child d ''trace.zip'')),
                  (case fst (E (TracingStop (Child d ''trace.zip'')) w) of
                     Inl e \<Rightarrow> Log Err ''Trace stop failed'' (Some e)
                   | Inr v \<Rightarrow> Log Okay ''Trace saved'' None)]
               else [])"
    using stop_trace_step_shape [of E cfg rd a w tr] by blast
  obtain w2 where
    s2: "close_step E a1 (w1, tr @ l1) =
       (Inr a1, (w2, (tr @ l1) @ [Call ContextClose,
          (case fst (E ContextClose w1) of
             Inl e \<Rightarrow> Log Err ''Context close failed'' (Some e)
           | Inr v \<Rightarrow> Log Okay ''Context closed'' None)]))"
    using close_step_shape [of E a1 w1 "tr @ l1"] by blast
  let ?l2 = "[case fst (E ContextClose w1) of
             Inl e \<Rightarrow> Log Err ''Context close failed'' (Some e)
           | Inr v \<Rightarrow> Log Okay ''Context closed'' None]"
  have s2': "close_step E a1 (w1, tr @ l1) = (Inr a1, (w2, tr @ l1 @ Call ContextClose # ?l2))"
    using s2 by simp
  obtain a3 w3 where
    s3: "video_step E a1 (w2, tr @ l1 @ Call ContextClose # ?l2) =
       (Inr a3, (w3, (tr @ l1 @ Call ContextClose # ?l2) @ Call PageVideo #
          (case fst (E PageVideo w2) of
             Inl e \<Rightarrow> [Log Err ''Video path fetch failed'' (Some e)]
           | Inr v \<Rightarrow>
               if truthy v then
                 [Call VideoPath,
                  (case fst (E VideoPath (snd (E PageVideo w2))) of
                     Inl e \<Rightarrow> Log Err ''Video path fetch failed'' (Some e)
                   | Inr vp \<Rightarrow>
                       (case to_path vp of
                          Inl e \<Rightarrow> Log Err ''Video path fetch failed'' (Some e)
                        | Inr p \<Rightarrow> Log Okay ''Video saved'' None))]
               else [])))"
    using video_step_shape [of E a1 w2 "tr @ l1 @ Call ContextClose # ?l2"] by blast
  have s3': "video_step E a1 (w2, tr @ l1 @ Call ContextClose # ?l2) =
       (Inr a3, (w3, tr @ l1 @ Call ContextClose # ?l2 @ Call PageVideo #
          (case fst (E PageVideo w2) of
             Inl e \<Rightarrow> [Log Err ''Video path fetch failed'' (Some e)]
           | Inr v \<Rightarrow>
               if truthy v then
                 [Call VideoPath,
                  (case fst (E VideoPath (snd (E PageVideo w2))) of
                     Inl e \<Rightarrow> Log Err ''Video path fetch failed'' (Some e)
                   | Inr vp \<Rightarrow>
                       (case to_path vp of
                          Inl e \<Rightarrow> Log Err ''Video path fetch failed'' (Some e)
                        | Inr p \<Rightarrow> Log Okay ''Video saved'' None))]
               else [])))"
    using s3 by simp
  have f: "finalize_artifacts E cfg rd a (w, tr) =
      video_step E a1 (w2, tr @ l1 @ Call ContextClose # ?l2)"
    using s1 s2' by (rule finalize_artifacts_unfold)
  show ?thesis
    using s1 s2' s3' f l1 by (intro exI conjI) (assumption | simp only: | rule refl)+
qed

text \<open>
  Claim C1, as amended. In every run of the finalizer the video path is still as it was
  on entry when the context-close attempt has returned, and the recording is looked up and
  its path queried only after that attempt, in the trace as well. The path the finalizer
  returns is the one the recording reports, whenever the page has a recording and the query
  succeeds, and the entry value otherwise; neither depends on whether the close succeeded.
\<close>

theorem video_path_after_close_attempt:
  "\<exists>a1 s1 a2 s2 a3 s3 l1 lg l3.
     stop_trace_step E cfg rd a (w, tr) = (Inr a1, s1)
   \<and> close_step E a1 s1 = (Inr a2, s2)
   \<and> video_step E a2 s2 = (Inr a3, s3)
   \<and> finalize_artifacts E cfg rd a (w, tr) = (Inr a3, s3)
   \<and> video_path a1 = video_path a \<and> video_path a2 = video_path a
   \<and> snd s2 = tr @ l1 @ [Call ContextClose, lg]
   \<and> Call PageVideo \<notin> set l1 \<and> Call VideoPath \<notin> set l1
   \<and> snd s3 = snd s2 @ Call PageVideo # l3
   \<and> video_path a3 =
       (case fst (E PageVideo (fst s2)) of
          Inl e \<Rightarrow> video_path a
        | Inr v \<Rightarrow>
            if truthy v then
              (case fst (E VideoPath (snd (E PageVideo (fst s2)))) of
                 Inl e \<Rightarrow> video_path a
               | Inr vp \<Rightarrow>
                   (case to_path vp of Inl e \<Rightarrow> video_path a | Inr p \<Rightarrow> Some p))
            else video_path a)"
proof -
  obtain a1 w1 l1 where
    s1: "stop_trace_step E cfg rd a (w, tr) = (Inr a1, (w1, tr @ l1))"
    and v1: "video_path a1 = video_path a"
    and l1: "l1 = (case rd of
             None \<Rightarrow> []
           | Some d \<Rightarrow>
               if RECORD_TRACE cfg then
                 [Call (TracingStop (Child d ''trace.zip'')),
                  (case fst (E (TracingStop (Child d ''trace.zip'')) w) of
                     Inl e \<Rightarrow> Log Err ''Trace stop failed'' (Some e)
                   | Inr v \<Rightarrow> Log Okay ''Trace saved'' None)]
               else [])"
    using stop_trace_step_shape [of E cfg rd a w tr] by blast
  have n1: "Call PageVideo \<notin> set l1" and n2: "Call VideoPath \<notin> set l1"
    unfolding l1 by (simp_all split: option.splits sum.splits)
  obtain w2 lg where
    s2: "close_step E a1 (w1, tr @ l1) = (Inr a1, (w2, (tr @ l1) @ [Call ContextClose, lg]))"
    using close_step_shape [of E a1 w1 "tr @ l1"] by blast
  obtain a3 w3 l3 where
    s3: "video_step E a1 (w2, (tr @ l1) @ [Call ContextClose, lg]) =
       (Inr a3, (w3, ((tr @ l1) @ [Call ContextClose, lg]) @ Call PageVideo # l3))"
    and v3: "video_path a3 =
       (case fst (E PageVideo w2) of
          Inl e \<Rightarrow> video_path a1
        | Inr v \<Rightarrow>
            if truthy v then
              (case fst (E VideoPath (snd (E PageVideo w2))) of
                 Inl e \<Rightarrow> video_path a1
               | Inr vp \<Rightarrow>
                   (case to_path vp of Inl e \<Rightarrow> video_path a1 | Inr p \<Rightarrow> Some p))
            else video_path a1)"
    using video_step_shape [of E a1 w2 "(tr @ l1) @ [Call ContextClose, lg]"] by blast
  have f: "finalize_artifacts E cfg rd a (w, tr) =
      video_step E a1 (w2, (tr @ l1) @ [Call ContextClose, lg])"
    using s1 s2 by (rule finalize_artifacts_unfold)
  show ?thesis
    apply (rule exI [of _ a1])
    apply (rule exI [of _ "(w1, tr @ l1)"])
    apply (rule exI [of _ a1])
    apply (rule exI [of _ "(w2, (tr @ l1) @ [Call ContextClose, lg])"])
    apply (rule exI [of _ a3])
    apply (rule exI [of _ "(w3, ((tr @ l1) @ [Call ContextClose, lg]) @ Call PageVideo # l3)"])
    apply (rule exI [of _ l1])
    apply (rule exI [of _ lg])
    apply (rule exI [of _ l3])
    unfolding fst_conv snd_conv
    using s1 s2 s3 f v1 v3 [unfolded v1] n1 n2 apply simp
    done
qed

text \<open>
  Claim C1 as stated fails: when closing the context raises and the page's recording
  still reports its path, the finalizer prints the close failure and returns artifacts
  whose video path is populated.
\<close>

theorem video_path_set_after_failed_close:
  "close_step env_close_fails no_artifacts ((), []) =
     (Inr no_artifacts,
      ((), [Call ContextClose, Log Err ''Context close failed'' (Some (Error ''Target closed''))]))
   \<and> finalize_artifacts env_close_fails
        \<lparr>RECORD_TRACE = True, HEADLESS_DEFAULT = True, LOG_NETWORK = True\<rparr> None no_artifacts ((), [])
     = (Inr (no_artifacts\<lparr>video_path := Some (PathOf ''videos/P1/page.webm'')\<rparr>),
        ((), [Call ContextClose, Log Err ''Context close failed'' (Some (Error ''Target closed'')),
              Call PageVideo, Call VideoPath, Log Okay ''Video saved'' None]))"
  by (simp add: finalize_artifacts_def bind_def stop_trace_step_run close_step_run
      video_step_run env_close_fails_def no_artifacts_def)

section \<open>Properties of fuzzy control matching\<close>

lemma first_click_apply: "first_click s = (Inl (Error ''TypeError''), s)"
  by (simp add: first_click_def raise_def)


lemma click_if_exists_returns_false: "fst (click_if_exists E pat s) = Inr False"
proof -
  obtain w tr where s: "s = (w, tr)" by (cases s)
  obtain r1 w1 where b: "E (RoleCount Button pat) w = (r1, w1)"
    by (cases "E (RoleCount Button pat) w")
  obtain r2 w2 where l: "E (RoleCount Link pat) w1 = (r2, w2)"
    by (cases "E (RoleCount Link pat) w1")
  show ?thesis
    using s b l
    by (cases r1; cases r2)
      (simp_all add: click_if_exists_def run_simps first_click_apply)
qed

text \<open>
  Claim C9: what the code does where the claim asks for a click. On a page where a button
  and a link both match the pattern, the primitive finds the button first and prints the
  match, but calling \<open>first\<close> raises before any click: it prints the button failure,
  finds the link, fails on it in the same way, prints that nothing matched and returns
  false. Neither the button nor the link is clicked. The primitive returns false in every
  environment.
\<close>

theorem click_if_exists_never_clicks:
  "fst (click_if_exists E pat s) = Inr False
   \<and> fst (env_controls_match (RoleCount Button ''(submit|check|search)'') ()) = Inr (VInt 1)
   \<and> fst (env_controls_match (RoleCount Link ''(submit|check|search)'') ()) = Inr (VInt 1)
   \<and> click_if_exists env_controls_match ''(submit|check|search)'' ((), []) =
       (Inr False, ((), [Log Plain ''Try click-if-exists'' None,
          Call (RoleCount Button ''(submit|check|search)''),
          Log Okay ''Button match found'' None,
          Log Err ''Button click failed'' (Some (Error ''TypeError'')),
          Call (RoleCount Link ''(submit|check|search)''),
          Log Okay ''Link match found'' None,
          Log Err ''Link click failed'' (Some (Error ''TypeError'')),
          Log Warn ''No button/link matched'' None]))"
proof (intro conjI)
  show "fst (click_if_exists E pat s) = Inr False"
    by (rule click_if_exists_returns_false)
  show "fst (env_controls_match (RoleCount Button ''(submit|check|search)'') ()) = Inr (VInt 1)"
    by (simp add: env_controls_match_def)
  show "fst (env_controls_match (RoleCount Link ''(submit|check|search)'') ()) = Inr (VInt 1)"
    by (simp add: env_controls_match_def)
  show "click_if_exists env_controls_match ''(submit|check|search)'' ((), []) =
       (Inr False, ((), [Log Plain ''Try click-if-exists'' None,
          Call (RoleCount Button ''(submit|check|search)''),
          Log Okay ''Button match found'' None,
          Log Err ''Button click failed'' (Some (Error ''TypeError'')),
          Call (RoleCount Link ''(submit|check|search)''),
          Log Okay ''Link match found'' None,
          Log Err ''Link click failed'' (Some (Error ''TypeError'')),
          Log Warn ''No button/link matched'' None]))"
    by (simp add: click_if_exists_def run_simps first_click_apply env_controls_match_def)
qed

section \<open>Properties of the download workflow\<close>



lemma screenshot_no_popup:
  "emits_only (\<lambda>x. \<forall>n. x \<noteq> Call (ExpectPopup n)) (screenshot E pg name)"
  unfolding screenshot_def
  by (cases "mdac_screens pg") (simp_all add: emits_only_intros)










section \<open>Properties of the gate wait in the register workflow\<close>

lemma wait_for_timeout:
  "gate_wait ev sched g = (TimedOut, g') \<Longrightarrow> wait_for ev sched g = (Inl AsyncioTimeout, g')"
  by (simp add: wait_for_def)

lemma register_gate_prologue:
  "\<exists>w1 l. seq (emit Plain ''PAUSE'' None)
             (catch (seq (call E (EvaluateLog t)) (ret ())) (\<lambda>e. ret ())) (w, tr)
          = (Inr (), (w1, tr @ l))"
proof -
  obtain r w' where c: "E (EvaluateLog t) w = (r, w')" by (cases "E (EvaluateLog t) w")
  show ?thesis using c by (cases r) (auto simp add: run_simps)
qed

lemma register_gate_timed_out:
  assumes "gate_ok g" and "t \<noteq> ''''" and "Resume t \<notin> set sched"
  shows "\<exists>w1 l. register_gate E True (Some t) sched g (w, tr) =
      ((Inr (), (w1, tr @ l @ [Log Warn ''Gate timed out; continuing'' None])),
       run_ops sched (snd (create g t)))"
proof -
  obtain w1 l where p: "seq (emit Plain ''PAUSE'' None)
             (catch (seq (call E (EvaluateLog t)) (ret ())) (\<lambda>e. ret ())) (w, tr)
          = (Inr (), (w1, tr @ l))"
    using register_gate_prologue [of E t w tr] by blast
  have q: "quiet (fst (create g t)) (Some t) (snd (create g t))"
    using assms(1) by (rule create_fresh_quiet)
  have "gate_wait (fst (create g t)) sched (snd (create g t))
      = (TimedOut, run_ops sched (snd (create g t)))"
    using q by (rule quiet_wait) (simp add: assms(3))
  then have wf: "wait_for (fst (create g t)) sched (snd (create g t))
      = (Inl AsyncioTimeout, run_ops sched (snd (create g t)))"
    by (rule wait_for_timeout)
  obtain ev g1 where c: "create g t = (ev, g1)" by (cases "create g t")
  have "register_gate E True (Some t) sched g (w, tr) =
      ((Inr (), (w1, tr @ l @ [Log Warn ''Gate timed out; continuing'' None])),
       run_ops sched (snd (create g t)))"
    using assms(2) p wf c
    by (simp add: register_gate_def emit_apply)
  then show ?thesis by blast
qed

lemma created_token_kept:
  "Resume t \<notin> set sched \<Longrightarrow> events (run_ops sched (snd (create g t))) t \<noteq> None"
proof
  assume n: "Resume t \<notin> set sched" and e: "events (run_ops sched (snd (create g t))) t = None"
  have "events (snd (create g t)) t \<noteq> None" by (simp add: create_def Let_def)
  from only_resume_removes [OF this e] n show False by simp
qed

lemma screenshot_emits: "emits_only (\<lambda>_. True) (screenshot E pg name)"
  by (rule emits_only_weaken [OF screenshot_no_popup]) simp

lemma register_submit_rest_emits:
  "emits_only (\<lambda>_. True)
     (seq (call E (WaitForTimeout 1500))
     (seq (screenshot E pg ''03_after_submit'')
     (bind (catch (call E (InnerText ''body'')) (\<lambda>e. ret (VStr ''submitted''))) (\<lambda>body_txt.
        case body_txt of
          VStr txt \<Rightarrow>
            seq (emit Plain ''Register result (excerpt)'' None)
              (seq (emit Plain ''=== register_one: END ==='' None) (ret (take 500 txt)))
        | _ \<Rightarrow> raise (Error ''TypeError'')))))"
  by (intro emits_only_intros screenshot_emits) (simp_all add: emits_only_intros split: val.splits)

lemma register_submit_first:
  "\<exists>l. snd (snd (register_submit E pg (w, tr))) =
      tr @ [Log Plain ''Try submit form (#submit or Enter)'' None,
            Call (Click ''#submit'' 5000)] @ l"
proof -
  obtain r w' where c: "E (Click ''#submit'' 5000) w = (r, w')"
    by (cases "E (Click ''#submit'' 5000) w")
  let ?tr = "(tr @ [Log Plain ''Try submit form (#submit or Enter)'' None])
                @ [Call (Click ''#submit'' 5000)]"
  show ?thesis
  proof (cases r)
    case (Inl e)
    have "\<exists>l. snd (snd (seq (seq (emit Warn ''#submit click failed; try Enter'' (Some e))
               (catch
                 (seq (call E (KeyboardPress ''Enter''))
                   (emit Okay ''Enter pressed for submit'' None))
                 (\<lambda>e2. emit Err ''Submit via Enter failed'' (Some e2))))
        (seq (call E (WaitForTimeout 1500))
     (seq (screenshot E pg ''03_after_submit'')
     (bind (catch (call E (InnerText ''body'')) (\<lambda>e. ret (VStr ''submitted''))) (\<lambda>body_txt.
        case body_txt of
          VStr txt \<Rightarrow>
            seq (emit Plain ''Register result (excerpt)'' None)
              (seq (emit Plain ''=== register_one: END ==='' None) (ret (take 500 txt)))
        | _ \<Rightarrow> raise (Error ''TypeError''))))) (w', ?tr))) = ?tr @ l"
      by (rule emits_only_trace)
        (intro emits_only_intros register_submit_rest_emits; simp)
    then show ?thesis
      unfolding register_submit_def seq_emit_apply seq_catch_call_apply
      using c Inl by simp
  next
    case (Inr v)
    have "\<exists>l. snd (snd (seq (catch (emit Okay ''Submit button clicked'' None)
          (\<lambda>e. seq (emit Warn ''#submit click failed; try Enter'' (Some e))
               (catch
                 (seq (call E (KeyboardPress ''Enter''))
                   (emit Okay ''Enter pressed for submit'' None))
                 (\<lambda>e2. emit Err ''Submit via Enter failed'' (Some e2)))))
        (seq (call E (WaitForTimeout 1500))
     (seq (screenshot E pg ''03_after_submit'')
     (bind (catch (call E (InnerText ''body'')) (\<lambda>e. ret (VStr ''submitted''))) (\<lambda>body_txt.
        case body_txt of
          VStr txt \<Rightarrow>
            seq (emit Plain ''Register result (excerpt)'' None)
              (seq (emit Plain ''=== register_one: END ==='' None) (ret (take 500 txt)))
        | _ \<Rightarrow> raise (Error ''TypeError''))))) (w', ?tr))) = ?tr @ l"
      by (rule emits_only_trace)
        (intro emits_only_intros register_submit_rest_emits; simp)
    then show ?thesis
      unfolding register_submit_def seq_emit_apply seq_catch_call_apply
      using c Inr by simp
  qed
qed

text \<open>
  Claim C3. Take a gate built from the empty one by any calls, a non-empty token, and a
  wait of the register workflow during which no task calls \<open>resume\<close> on that token. Then
  the wait ends by its ceiling, the gate block prints the timeout warning and returns
  normally, the token is still mapped in the gate that the workflow finds, and the
  workflow goes on to the submit block: its next line and its click on the submit control
  follow the warning in the trace. A token that was mapped and is mapped no more after
  some calls on the gate has been removed by a \<open>resume\<close> among them.
\<close>

theorem gate_timeout_continues:
  assumes "g = run_ops ops0 empty_gate" and "t \<noteq> ''''" and "Resume t \<notin> set sched"
  shows "\<exists>w1 l l'.
     gate_wait (fst (create g t)) sched (snd (create g t)) =
       (TimedOut, run_ops sched (snd (create g t)))
   \<and> register_gate E True (Some t) sched g (w, tr) =
       ((Inr (), (w1, tr @ l @ [Log Warn ''Gate timed out; continuing'' None])),
        run_ops sched (snd (create g t)))
   \<and> events (run_ops sched (snd (create g t))) t \<noteq> None
   \<and> register_after_fill E pg True (Some t) sched g (w, tr) =
       (register_submit E pg (w1, tr @ l @ [Log Warn ''Gate timed out; continuing'' None]),
        run_ops sched (snd (create g t)))
   \<and> snd (snd (register_submit E pg
         (w1, tr @ l @ [Log Warn ''Gate timed out; continuing'' None]))) =
       tr @ l @ [Log Warn ''Gate timed out; continuing'' None,
                 Log Plain ''Try submit form (#submit or Enter)'' None,
                 Call (Click ''#submit'' 5000)] @ l'
   \<and> (\<forall>g' ops. events g' t \<noteq> None \<and> events (run_ops ops g') t = None
         \<longrightarrow> Resume t \<in> set ops)"
proof -
  have ok: "gate_ok g"
    using assms(1) gate_ok_empty by (simp add: gate_ok_run)
  have tw: "gate_wait (fst (create g t)) sched (snd (create g t)) =
       (TimedOut, run_ops sched (snd (create g t)))"
    using create_fresh_quiet [OF ok, of t] by (rule quiet_wait) (simp add: assms(3))
  obtain w1 l where
    rg: "register_gate E True (Some t) sched g (w, tr) =
       ((Inr (), (w1, tr @ l @ [Log Warn ''Gate timed out; continuing'' None])),
        run_ops sched (snd (create g t)))"
    using register_gate_timed_out [OF ok assms(2) assms(3), of E w tr] by blast
  have kept: "events (run_ops sched (snd (create g t))) t \<noteq> None"
    using assms(3) by (rule created_token_kept)
  have ra: "register_after_fill E pg True (Some t) sched g (w, tr) =
       (register_submit E pg (w1, tr @ l @ [Log Warn ''Gate timed out; continuing'' None]),
        run_ops sched (snd (create g t)))"
    using rg by (simp add: register_after_fill_def)
  obtain l' where
    sb: "snd (snd (register_submit E pg
         (w1, tr @ l @ [Log Warn ''Gate timed out; continuing'' None]))) =
       (tr @ l @ [Log Warn ''Gate timed out; continuing'' None])
         @ [Log Plain ''Try submit form (#submit or Enter)'' None,
            Call (Click ''#submit'' 5000)] @ l'"
    using register_submit_first
      [of E pg w1 "tr @ l @ [Log Warn ''Gate timed out; continuing'' None]"] by blast
  have only: "\<forall>g' ops. events g' t \<noteq> None \<and> events (run_ops ops g') t = None
         \<longrightarrow> Resume t \<in> set ops"
    using only_resume_removes by blast
  from sb have sb': "snd (snd (register_submit E pg
         (w1, tr @ l @ [Log Warn ''Gate timed out; continuing'' None]))) =
       tr @ l @ [Log Warn ''Gate timed out; continuing'' None,
                 Log Plain ''Try submit form (#submit or Enter)'' None,
                 Call (Click ''#submit'' 5000)] @ l'"
    by simp
  show ?thesis
    apply (rule exI [of _ w1])
    apply (rule exI [of _ l])
    apply (rule exI [of _ l'])
    apply (intro conjI)
         apply (rule tw)
        apply (rule rg)
       apply (rule kept)
      apply (rule ra)
     apply (rule sb')
    apply (rule only)
    done
qed

theorem gate_timeout_continues_witness:
  "''a1b2c3d4'' \<noteq> '''' \<and> Resume ''a1b2c3d4'' \<notin> set [Create ''0f0f0f0f'', Resume ''0f0f0f0f'']
   \<and> fst (gate_wait (fst (create (run_ops [] empty_gate) ''a1b2c3d4''))
        [Create ''0f0f0f0f'', Resume ''0f0f0f0f'']
        (snd (create (run_ops [] empty_gate) ''a1b2c3d4''))) = TimedOut
   \<and> events (run_ops [Create ''0f0f0f0f'', Resume ''0f0f0f0f'']
        (snd (create (run_ops [] empty_gate) ''a1b2c3d4''))) ''a1b2c3d4'' \<noteq> None
   \<and> fst (fst (register_gate env_plain True (Some ''a1b2c3d4'')
        [Create ''0f0f0f0f'', Resume ''0f0f0f0f''] (run_ops [] empty_gate) ((), []))) = Inr ()"
proof -
  have a: "''a1b2c3d4'' \<noteq> ''''" by simp
  have b: "Resume ''a1b2c3d4'' \<notin> set [Create ''0f0f0f0f'', Resume ''0f0f0f0f'']" by simp
  from gate_timeout_continues [OF refl a b, of "[]" env_plain "()" "[]" "\<lparr>mdac_screens = None\<rparr>"]
  obtain w1 l where
    "gate_wait (fst (create (run_ops [] empty_gate) ''a1b2c3d4''))
        [Create ''0f0f0f0f'', Resume ''0f0f0f0f'']
        (snd (create (run_ops [] empty_gate) ''a1b2c3d4'')) =
       (TimedOut, run_ops [Create ''0f0f0f0f'', Resume ''0f0f0f0f'']
          (snd (create (run_ops [] empty_gate) ''a1b2c3d4'')))"
    and "register_gate env_plain True (Some ''a1b2c3d4'')
        [Create ''0f0f0f0f'', Resume ''0f0f0f0f''] (run_ops [] empty_gate) ((), []) =
       ((Inr (), (w1, [] @ l @ [Log Warn ''Gate timed out; continuing'' None])),
        run_ops [Create ''0f0f0f0f'', Resume ''0f0f0f0f'']
          (snd (create (run_ops [] empty_gate) ''a1b2c3d4'')))"
    and "events (run_ops [Create ''0f0f0f0f'', Resume ''0f0f0f0f'']
        (snd (create (run_ops [] empty_gate) ''a1b2c3d4''))) ''a1b2c3d4'' \<noteq> None"
    by blast
  with a b show ?thesis by (simp only: fst_conv simp_thms)
qed

section \<open>Properties of the date normalization\<close>





















section \<open>Properties of the session factory\<close>

lemma open_context_screens_step:
  "\<exists>sd w' l.
     (case rvd of
        None \<Rightarrow> ret None
      | Some d \<Rightarrow>
          catch
            (seq (call E (Mkdir d))
              (seq (emit Okay ''Video+Screens dir ready'' None)
                (ret (Some (Child d ''screens'')))))
            (\<lambda>e. seq (emit Err ''Failed to prepare record_video_dir'' (Some e)) (ret None)))
       (w, tr) = (Inr sd, (w', tr @ l))
   \<and> sd = (case rvd of
             None \<Rightarrow> None
           | Some d \<Rightarrow>
               (case fst (E (Mkdir d) w) of
                  Inl e \<Rightarrow> None
                | Inr v \<Rightarrow> Some (Child d ''screens'')))"
proof (cases rvd)
  case None
  then show ?thesis by (simp add: run_simps)
next
  case (Some d)
  obtain r w' where c: "E (Mkdir d) w = (r, w')" by (cases "E (Mkdir d) w")
  show ?thesis using Some c by (cases r) (simp_all add: run_simps)
qed

lemma open_context_artifacts:
  assumes "open_context E cfg dd hl rvd (w, tr) = (Inr (pg, a), s')"
  shows "video_path a = None \<and> trace_path a = None
    \<and> mdac_screens pg = screenshots_dir a
    \<and> screenshots_dir a =
        (case rvd of
           None \<Rightarrow> None
         | Some d \<Rightarrow>
             (case fst (E (Mkdir d)
                     (snd (E (Launch (case hl of None \<Rightarrow> HEADLESS_DEFAULT cfg | Some h \<Rightarrow> h))
                        (snd (E PlaywrightStart w))))) of
                Inl e \<Rightarrow> None
              | Inr v \<Rightarrow> Some (Child d ''screens'')))"
  using assms
  unfolding open_context_def
proof (elim seq_InrE bind_InrE)
  fix x1 s1 x2 s2 x3 s3 sd s4 x5 s5 x6 s6 x7 s7 x8 s8 x9 s9 x10 s10 x11 s11 x12 s12
  assume c1: "call E PlaywrightStart (w, tr) = (Inr x1, s1)"
    and c2: "emit Plain ''Launching Chromium'' None s1 = (Inr x2, s2)"
    and c3: "call E (Launch (case hl of None \<Rightarrow> HEADLESS_DEFAULT cfg | Some h \<Rightarrow> h)) s2
              = (Inr x3, s3)"
    and c4: "(case rvd of
          None \<Rightarrow> ret None
        | Some d \<Rightarrow>
            catch
              (seq (call E (Mkdir d))
                (seq (emit Okay ''Video+Screens dir ready'' None)
                  (ret (Some (Child d ''screens'')))))
              (\<lambda>e. seq (emit Err ''Failed to prepare record_video_dir'' (Some e)) (ret None)))
         s3 = (Inr sd, s4)"
    and c13: "ret (\<lparr>mdac_screens = sd\<rparr>,
                  \<lparr>video_path = None, trace_path = None, screenshots_dir = sd\<rparr>) s12
              = (Inr (pg, a), s')"
  from c1 have w1: "fst s1 = snd (E PlaywrightStart w)" by (simp add: call_Inr_world)
  from c2 have w2: "fst s2 = fst s1" by (rule emit_world)
  obtain w2' tr2 where s2: "s2 = (w2', tr2)" by (cases s2)
  from c3 s2 have w3: "fst s3 = snd (E (Launch (case hl of None \<Rightarrow> HEADLESS_DEFAULT cfg | Some h \<Rightarrow> h)) w2')"
    by (simp add: call_Inr_world)
  obtain w3' tr3 where s3: "s3 = (w3', tr3)" by (cases s3)
  from open_context_screens_step [where rvd=rvd and E=E and w=w3' and tr=tr3] c4 s3
  have sd: "sd = (case rvd of
             None \<Rightarrow> None
           | Some d \<Rightarrow>
               (case fst (E (Mkdir d) w3') of
                  Inl e \<Rightarrow> None
                | Inr v \<Rightarrow> Some (Child d ''screens'')))"
    by auto
  from c13 have pa: "pg = \<lparr>mdac_screens = sd\<rparr>"
      "a = \<lparr>video_path = None, trace_path = None, screenshots_dir = sd\<rparr>"
    by (simp_all add: ret_apply)
  from w1 w2 s2 w3 s3 have w3eq: "w3' = snd (E (Launch (case hl of None \<Rightarrow> HEADLESS_DEFAULT cfg | Some h \<Rightarrow> h))
                        (snd (E PlaywrightStart w)))"
    by simp
  from sd [unfolded w3eq] pa show ?thesis by simp
qed

lemma finalize_frame:
  "\<exists>a' s'. finalize_artifacts E cfg rd a s = (Inr a', s')
     \<and> screenshots_dir a' = screenshots_dir a"
proof -
  obtain w tr where s: "s = (w, tr)" by (cases s)
  obtain a1 w1 l1 where
    s1: "stop_trace_step E cfg rd a (w, tr) = (Inr a1, (w1, tr @ l1))"
    and d1: "screenshots_dir a1 = screenshots_dir a"
    using stop_trace_step_shape [of E cfg rd a w tr] by blast
  obtain s2 where s2: "close_step E a1 (w1, tr @ l1) = (Inr a1, s2)"
    using close_step_shape [of E a1 w1 "tr @ l1"] by blast
  obtain w2 tr2 where s2p: "s2 = (w2, tr2)" by (cases s2)
  obtain a3 s3 where s3: "video_step E a1 (w2, tr2) = (Inr a3, s3)"
    and d3: "screenshots_dir a3 = screenshots_dir a1"
    using video_step_shape [of E a1 w2 tr2] by blast
  have "finalize_artifacts E cfg rd a (w, tr) = video_step E a1 s2"
    using s1 s2 by (rule finalize_artifacts_unfold)
  with s s2p s3 d1 d3 show ?thesis by simp
qed

lemma process_row_ok:
  assumes "process_row E cfg work dd hl vd s = (Inr (Inr (info, a')), s3)"
  shows "\<exists>pg a s1 s2.
     open_context E cfg dd hl vd s = (Inr (pg, a), s1)
   \<and> work pg s1 = (Inr info, s2)
   \<and> finalize_artifacts E cfg vd a s2 = (Inr a', s3)
   \<and> screenshots_dir a' = screenshots_dir a"
proof -
  from assms obtain x s1 where
    o: "open_context E cfg dd hl vd s = (Inr x, s1)"
    and r: "(case x of (pg, artifacts) \<Rightarrow>
       catch
         (bind (work pg) (\<lambda>info.
            bind (finalize_artifacts E cfg vd artifacts) (\<lambda>artifacts'.
              ret (Inr (info, artifacts')))))
         (\<lambda>e. seq (catch (seq (finalize_artifacts E cfg vd artifacts) (ret ()))
                     (\<lambda>e'. ret ()))
                (ret (Inl e)))) s1 = (Inr (Inr (info, a')), s3)"
    unfolding process_row_def by (rule bind_InrE)
  obtain pg a where x: "x = (pg, a)" by (cases x)
  obtain rw s2 where w: "work pg s1 = (rw, s2)" by (cases "work pg s1")
  obtain af sf where f: "finalize_artifacts E cfg vd a s2 = (Inr af, sf)"
    and fr: "screenshots_dir af = screenshots_dir a"
    using finalize_frame [of E cfg vd a s2] by blast
  show ?thesis
  proof (cases rw)
    case (Inl e)
    obtain ae se where "finalize_artifacts E cfg vd a s2 = (Inr ae, se)"
      using finalize_frame [of E cfg vd a s2] by blast
    with r x w Inl have False by (simp add: run_simps)
    then show ?thesis ..
  next
    case (Inr i)
    with r x w f have "i = info \<and> af = a' \<and> sf = s3" by (simp add: run_simps)
    with o x w Inr f fr show ?thesis
      by (intro exI [of _ pg] exI [of _ a] exI [of _ s1] exI [of _ s2]) simp
  qed
qed

text \<open>
  Claim C8, as amended. Whenever the session factory returns, the artifacts it returns
  have no video path and no trace path; their screenshots directory is the one attached
  to the page: \<open>screens\<close> under the recording directory when one was given and could be
  made, and unpopulated otherwise. The finalizer always returns and never changes the
  screenshots directory. In the handling of a row, the workflow is given the page and not
  the artifacts, the finalizer receives the artifacts as the factory returned them, and
  the artifacts the row reports are the ones the finalizer returns.
\<close>

theorem artifacts_at_creation:
  "(open_context E cfg dd hl rvd (w, tr) = (Inr (pg, a), s1) \<longrightarrow>
      video_path a = None \<and> trace_path a = None
      \<and> mdac_screens pg = screenshots_dir a
      \<and> screenshots_dir a =
          (case rvd of
             None \<Rightarrow> None
           | Some d \<Rightarrow>
               (case fst (E (Mkdir d)
                       (snd (E (Launch (case hl of None \<Rightarrow> HEADLESS_DEFAULT cfg | Some h \<Rightarrow> h))
                          (snd (E PlaywrightStart w))))) of
                  Inl e \<Rightarrow> None
                | Inr v \<Rightarrow> Some (Child d ''screens''))))
   \<and> (\<exists>a' s'. finalize_artifacts E cfg rvd a0 s = (Inr a', s')
         \<and> screenshots_dir a' = screenshots_dir a0)
   \<and> (process_row E cfg work dd hl rvd (w, tr) = (Inr (Inr (info, af)), s3) \<longrightarrow>
        (\<exists>pg a s1 s2.
           open_context E cfg dd hl rvd (w, tr) = (Inr (pg, a), s1)
         \<and> work pg s1 = (Inr info, s2)
         \<and> finalize_artifacts E cfg rvd a s2 = (Inr af, s3)
         \<and> screenshots_dir af = screenshots_dir a))"
proof (intro conjI impI)
  assume o: "open_context E cfg dd hl rvd (w, tr) = (Inr (pg, a), s1)"
  from open_context_artifacts [OF o]
  show "video_path a = None" and "trace_path a = None"
    and "mdac_screens pg = screenshots_dir a"
    and "screenshots_dir a =
          (case rvd of
             None \<Rightarrow> None
           | Some d \<Rightarrow>
               (case fst (E (Mkdir d)
                       (snd (E (Launch (case hl of None \<Rightarrow> HEADLESS_DEFAULT cfg | Some h \<Rightarrow> h))
                          (snd (E PlaywrightStart w))))) of
                  Inl e \<Rightarrow> None
                | Inr v \<Rightarrow> Some (Child d ''screens'')))"
    by blast+
next
  show "\<exists>a' s'. finalize_artifacts E cfg rvd a0 s = (Inr a', s')
         \<and> screenshots_dir a' = screenshots_dir a0"
    by (rule finalize_frame)
next
  assume "process_row E cfg work dd hl rvd (w, tr) = (Inr (Inr (info, af)), s3)"
  then show "\<exists>pg a s1 s2.
           open_context E cfg dd hl rvd (w, tr) = (Inr (pg, a), s1)
         \<and> work pg s1 = (Inr info, s2)
         \<and> finalize_artifacts E cfg rvd a s2 = (Inr af, s3)
         \<and> screenshots_dir af = screenshots_dir a"
    by (rule process_row_ok)
qed

theorem artifacts_at_creation_witness:
  "fst (open_context env_plain \<lparr>RECORD_TRACE = True, HEADLESS_DEFAULT = True, LOG_NETWORK = True\<rparr>
          None None None ((), []))
     = Inr (\<lparr>mdac_screens = None\<rparr>, no_artifacts)
   \<and> video_path no_artifacts = None \<and> trace_path no_artifacts = None
   \<and> screenshots_dir no_artifacts = None"
proof -
  let ?cfg = "\<lparr>RECORD_TRACE = True, HEADLESS_DEFAULT = True, LOG_NETWORK = True\<rparr>"
  have f: "fst (open_context env_plain ?cfg None None None ((), []))
      = Inr (\<lparr>mdac_screens = None\<rparr>, no_artifacts)"
    by (simp add: open_context_def attach_listeners_def run_simps env_plain_def no_artifacts_def)
  then have o: "open_context env_plain ?cfg None None None ((), [])
      = (Inr (\<lparr>mdac_screens = None\<rparr>, no_artifacts),
         snd (open_context env_plain ?cfg None None None ((), [])))"
    by (simp add: prod_eq_iff)
  from artifacts_at_creation [THEN conjunct1, rule_format, OF o]
  have "video_path no_artifacts = None \<and> trace_path no_artifacts = None
      \<and> screenshots_dir no_artifacts = None"
    by simp
  with f show ?thesis by simp
qed

text \<open>
  Claim C8 as stated fails: a session opened with a recording directory returns artifacts
  whose screenshots directory is populated at creation.
\<close>

theorem artifacts_screens_at_creation:
  "fst (open_context env_plain \<lparr>RECORD_TRACE = True, HEADLESS_DEFAULT = True, LOG_NETWORK = True\<rparr>
          None None (Some (Child (PathOf ''./videos'') ''A1234567'')) ((), []))
     = Inr (\<lparr>mdac_screens = Some (Child (Child (PathOf ''./videos'') ''A1234567'') ''screens'')\<rparr>,
            \<lparr>video_path = None, trace_path = None,
             screenshots_dir = Some (Child (Child (PathOf ''./videos'') ''A1234567'') ''screens'')\<rparr>)"
  by (simp add: open_context_def attach_listeners_def run_simps env_plain_def)

end
